theory Spec2Isabelle
  imports Complex_Main "HOL-Library.Log_Nat"
begin

section \<open>JavaScript numbers\<close>

text \<open>
  Every number of \<^verbatim>\<open>main.js\<close> is an IEEE 754 binary64 value, and \<^verbatim>\<open>+\<close>, \<^verbatim>\<open>-\<close>,
  \<^verbatim>\<open>*\<close> round their exact result to the nearest binary64 value, ties to even. A finite
  number is modelled by the rational it denotes. \<open>round64\<close> rounds a rational to 53
  significant bits; the exponent range is not bounded, which agrees with binary64 on every
  operation of the program: each one adds a constant of magnitude at most 10 to a finite
  value (or scales a random draw of \<open>[0, 1)\<close> by 50), so no result overflows and no
  nonzero result is subnormal. NaN and the infinities are therefore not values of the
  model. A decimal literal such as \<^verbatim>\<open>0.1\<close> denotes \<open>round64 (1 / 10)\<close>; the literal
  \<^verbatim>\<open>0.5\<close> and the integer literals are binary64 values and denote themselves.
\<close>

type_synonym number = rat

definition exponent :: "rat \<Rightarrow> int" where
  \<comment> \<open>for \<open>0 < x\<close>: the \<open>e\<close> with \<open>2 powi e \<le> x < 2 powi (e + 1)\<close>\<close>
  "exponent x =
     (let (p, q) = quotient_of x; d = bitlen p - bitlen q
      in if 2 powi d \<le> x then d else d - 1)"

definition round_half_even :: "rat \<Rightarrow> int" where
  "round_half_even q =
     (let n = \<lfloor>q\<rfloor>; r = q - of_int n
      in if r < 1 / 2 then n else if 1 / 2 < r then n + 1
         else if even n then n else n + 1)"

definition round64 :: "rat \<Rightarrow> number" where
  "round64 x =
     (if x = 0 then 0
      else let a = \<bar>x\<bar>; u = 2 powi (exponent a - 52)
           in sgn x * of_int (round_half_even (a / u)) * u)"

definition js_add :: "number \<Rightarrow> number \<Rightarrow> number" where
  "js_add a b = round64 (a + b)"

definition js_sub :: "number \<Rightarrow> number \<Rightarrow> number" where
  "js_sub a b = round64 (a - b)"

definition js_mul :: "number \<Rightarrow> number \<Rightarrow> number" where
  "js_mul a b = round64 (a * b)"

section \<open>Data model\<close>

text \<open>\<^verbatim>\<open>THREE.Vector3\<close> (and the three angles of a \<^verbatim>\<open>THREE.Euler\<close>).\<close>

record vector3 =
  vec_x :: number
  vec_y :: number
  vec_z :: number

definition vec_set :: "number \<Rightarrow> number \<Rightarrow> number \<Rightarrow> vector3" where
  "vec_set a b c = \<lparr>vec_x = a, vec_y = b, vec_z = c\<rparr>"

text \<open>The transform every \<^verbatim>\<open>THREE.Object3D\<close> carries.\<close>

record object3D =
  position :: vector3
  rotation :: vector3
  scale :: vector3

definition new_object3D :: object3D where
  "new_object3D =
     \<lparr>position = vec_set 0 0 0, rotation = vec_set 0 0 0, scale = vec_set 1 1 1\<rparr>"

text \<open>
  \<^verbatim>\<open>THREE.PerspectiveCamera\<close>. \<open>aspect\<close> keeps the two operands of
  \<^verbatim>\<open>innerWidth / innerHeight\<close>; \<open>lookAt\<close> is the point the orientation was last aimed
  at by \<^verbatim>\<open>camera.lookAt\<close> (\<open>None\<close>: never aimed, the orientation is \<open>rotation\<close>).
\<close>

record camera = object3D +
  aspect :: "int \<times> int"
  lookAt :: "vector3 option"

text \<open>\<^verbatim>\<open>THREE.Color\<close>, by the hexadecimal value it was built from.\<close>

datatype color = Color nat

text \<open>
  A \<^verbatim>\<open>THREE.ShaderMaterial\<close> object with the two uniforms of the shader pair.
  Materials are objects with identity: they live in the store \<open>materials\<close> of the state
  and are referred to by their address (their index in the store).
\<close>

record shader_material =
  time :: number
  color :: color
  needsUpdate :: bool
  uniformsNeedUpdate :: bool

datatype material_ref = ShaderMaterial nat | OtherMaterial

text \<open>
  \<^verbatim>\<open>material.clone()\<close> for a \<^verbatim>\<open>ShaderMaterial\<close>: a new object whose uniforms are deep
  copies of the source's uniforms (the colour is copied, not shared); the two update flags
  start cleared.
\<close>

definition clone :: "shader_material \<Rightarrow> shader_material" where
  "clone m = \<lparr>time = time m, color = color m, needsUpdate = False, uniformsNeedUpdate = False\<rparr>"

text \<open>
  A node of the loaded model: its transform, \<open>mesh = Some m\<close> when \<^verbatim>\<open>isMesh\<close> holds
  (a mesh always has a material, \<open>m\<close>), and its children.
\<close>

datatype node = Node (transform: object3D) (mesh: "material_ref option") (children: "node list")

definition isMesh :: "node \<Rightarrow> bool" where
  "isMesh n = (mesh n \<noteq> None)"

text \<open>What \<^verbatim>\<open>scene.add\<close> has put into the scene, by reference.\<close>

datatype scene_object =
  AmbientLight | DirectionalLight | PointLight | Asteroid nat | Stars | Spaceship

datatype console_entry =
  Log string
  | LogColor string color
  | Error string string

text \<open>
  The globals of the script and the parts of the host it acts on. \<open>frames\<close> counts the
  calls of \<^verbatim>\<open>renderer.render\<close>, one for each call of \<^verbatim>\<open>animate\<close>; \<open>materials\<close> is the store of
  shader material objects; \<open>loader_requests\<close> lists the \<^verbatim>\<open>loader.load\<close> calls made so far and
  \<open>loader_completed\<close> counts those that have called back; \<open>console\<close> is what has been
  written to the console. The vertices of the star field never change after start-up and
  are left out: \<open>stars\<close> is the transform of the point cloud.
\<close>

record state =
  scene :: "scene_object list"
  camera :: camera
  renderer_size :: "int \<times> int"
  frames :: nat
  materials :: "shader_material list"
  asteroids :: "object3D list"
  stars :: object3D
  spaceship :: "node option"
  loader_requests :: "string list"
  loader_completed :: nat
  asteroidSpeed :: number
  currentColorIndex :: nat
  console :: "console_entry list"

text \<open>The global \<^verbatim>\<open>spaceshipShaderMaterial\<close> is the first object of the store.\<close>

definition spaceshipShaderMaterial :: nat where
  "spaceshipShaderMaterial = 0"

definition colors :: "color list" where
  "colors = [Color 0xc0c0c0, Color 0xb0b0b0, Color 0xffffff]"

section \<open>Start-up (the top level of the script)\<close>

text \<open>
  \<open>rnd k\<close> is the value of call number \<open>k\<close> of \<^verbatim>\<open>Math.random()\<close>, counted from 0; asteroid
  \<open>i\<close> takes the calls \<open>3 i\<close>, \<open>3 i + 1\<close> and \<open>3 i + 2\<close> for its \<open>x\<close>, \<open>y\<close> and \<open>z\<close>.
\<close>

definition new_asteroid :: "(nat \<Rightarrow> number) \<Rightarrow> nat \<Rightarrow> object3D" where
  "new_asteroid rnd i =
     new_object3D\<lparr>position :=
       vec_set (js_sub (js_mul (rnd (3 * i)) 50) 25)
               (js_sub (js_mul (rnd (3 * i + 1)) 50) 25)
               (js_sub (js_mul (rnd (3 * i + 2)) 50) 25)\<rparr>"

definition top_level :: "int \<Rightarrow> int \<Rightarrow> (nat \<Rightarrow> number) \<Rightarrow> state" where
  "top_level innerWidth innerHeight rnd =
     \<lparr>scene = [AmbientLight, DirectionalLight, PointLight] @ map Asteroid [0..<50] @ [Stars],
      camera = \<lparr>position = vec_set 0 0 10, rotation = vec_set 0 0 0, scale = vec_set 1 1 1,
                aspect = (innerWidth, innerHeight), lookAt = None\<rparr>,
      renderer_size = (innerWidth, innerHeight),
      frames = 0,
      materials = [\<lparr>time = 1, color = Color 0xc0c0c0,
                     needsUpdate = False, uniformsNeedUpdate = False\<rparr>],
      asteroids = map (new_asteroid rnd) [0..<50],
      stars = new_object3D,
      spaceship = None,
      loader_requests = [''models/spaceship.gltf''],
      loader_completed = 0,
      asteroidSpeed = round64 (1 / 10),
      currentColorIndex = 0,
      console = []\<rparr>"

section \<open>Traversal\<close>

text \<open>
  \<^verbatim>\<open>object.traverse(callback)\<close>: the callback runs on the object, then on every
  descendant, children in order. Both callbacks of the script read and write only the
  material slot of the node they visit, and the material store.
\<close>

fun traverse ::
  "(material_ref option \<Rightarrow> 's \<Rightarrow> material_ref option \<times> 's) \<Rightarrow> node \<Rightarrow> 's \<Rightarrow> node \<times> 's"
  and traverse_children ::
  "(material_ref option \<Rightarrow> 's \<Rightarrow> material_ref option \<times> 's) \<Rightarrow> node list \<Rightarrow> 's \<Rightarrow> node list \<times> 's"
  where
  "traverse f (Node t m cs) s =
     (let (m', s1) = f m s; (cs', s2) = traverse_children f cs s1
      in (Node t m' cs', s2))"
| "traverse_children f [] s = ([], s)"
| "traverse_children f (c # cs) s =
     (let (c', s1) = traverse f c s; (cs', s2) = traverse_children f cs s1
      in (c' # cs', s2))"

section \<open>The loader callbacks\<close>

definition on_load_child ::
  "material_ref option \<Rightarrow> shader_material list \<Rightarrow> material_ref option \<times> shader_material list"
  where
  "on_load_child m ms =
     (case m of
        None \<Rightarrow> (None, ms)
      | Some _ \<Rightarrow>
          (Some (ShaderMaterial (length ms)),
           ms @ [(clone (ms ! spaceshipShaderMaterial))\<lparr>needsUpdate := True\<rparr>]))"

definition on_load :: "node \<Rightarrow> state \<Rightarrow> state" where
  "on_load gltf_scene s =
     (let ship = Node ((transform gltf_scene)\<lparr>scale := vec_set 2 2 2, position := vec_set 0 0 0\<rparr>)
                      (mesh gltf_scene) (children gltf_scene);
          (ship', ms') = traverse on_load_child ship (materials s)
      in s\<lparr>spaceship := Some ship',
           scene := scene s @ [Spaceship],
           materials := ms',
           console := console s @ [Log ''Spaceship loaded and added to the scene'']\<rparr>)"

definition on_error :: "string \<Rightarrow> state \<Rightarrow> state" where
  "on_error err s = s\<lparr>console := console s @ [Error ''Error loading spaceship:'' err]\<rparr>"

section \<open>The animation loop\<close>

definition animate_asteroid :: "number \<Rightarrow> object3D \<Rightarrow> object3D" where
  "animate_asteroid speed a =
     (let r = rotation a;
          r' = r\<lparr>vec_x := js_add (vec_x r) (round64 (1 / 100)),
                 vec_y := js_add (vec_y r) (round64 (1 / 100))\<rparr>;
          p = position a;
          z1 = js_add (vec_z p) speed;
          z2 = (if 10 < z1 then - 50 else z1)
      in a\<lparr>rotation := r', position := p\<lparr>vec_z := z2\<rparr>\<rparr>)"

definition animate :: "state \<Rightarrow> state" where
  "animate s =
     (let ms = materials s;
          tm = ms ! spaceshipShaderMaterial;
          ms' = ms[spaceshipShaderMaterial := tm\<lparr>time := js_add (time tm) (round64 (1 / 20))\<rparr>];
          as' = map (animate_asteroid (asteroidSpeed s)) (asteroids s);
          st = stars s;
          st' = st\<lparr>rotation := (rotation st)\<lparr>vec_y :=
                   js_add (vec_y (rotation st)) (round64 (- (1 / 10000)))\<rparr>\<rparr>;
          cam = camera s;
          cam' = (case spaceship s of
                    None \<Rightarrow> cam
                  | Some ship \<Rightarrow>
                      (let sp = position (transform ship)
                       in cam\<lparr>position := \<lparr>vec_x = vec_x sp, vec_y = vec_y sp,
                                             vec_z = js_add (vec_z sp) 10\<rparr>,
                               lookAt := Some sp\<rparr>))
      in s\<lparr>materials := ms', asteroids := as', stars := st', camera := cam',
           frames := Suc (frames s)\<rparr>)"

section \<open>Input handlers\<close>

definition move_ship :: "(vector3 \<Rightarrow> vector3) \<Rightarrow> node \<Rightarrow> node" where
  "move_ship f ship =
     Node ((transform ship)\<lparr>position := f (position (transform ship))\<rparr>)
          (mesh ship) (children ship)"

definition keydown :: "string \<Rightarrow> state \<Rightarrow> state" where
  "keydown key s =
     (case spaceship s of
        None \<Rightarrow> s
      | Some ship \<Rightarrow>
          if key = ''ArrowUp'' then
            s\<lparr>spaceship := Some (move_ship (\<lambda>p. p\<lparr>vec_y := js_add (vec_y p) (1 / 2)\<rparr>) ship)\<rparr>
          else if key = ''ArrowDown'' then
            s\<lparr>spaceship := Some (move_ship (\<lambda>p. p\<lparr>vec_y := js_sub (vec_y p) (1 / 2)\<rparr>) ship)\<rparr>
          else if key = ''ArrowLeft'' then
            s\<lparr>spaceship := Some (move_ship (\<lambda>p. p\<lparr>vec_x := js_sub (vec_x p) (1 / 2)\<rparr>) ship)\<rparr>
          else if key = ''ArrowRight'' then
            s\<lparr>spaceship := Some (move_ship (\<lambda>p. p\<lparr>vec_x := js_add (vec_x p) (1 / 2)\<rparr>) ship)\<rparr>
          else s)"

definition on_click_child ::
  "color \<Rightarrow> material_ref option \<Rightarrow> shader_material list \<Rightarrow> material_ref option \<times> shader_material list"
  where
  "on_click_child c m ms =
     (case m of
        Some (ShaderMaterial a) \<Rightarrow>
          (m, ms[a := (ms ! a)\<lparr>color := c, uniformsNeedUpdate := True\<rparr>])
      | _ \<Rightarrow> (m, ms))"

definition click :: "state \<Rightarrow> state" where
  "click s =
     (let i = (currentColorIndex s + 1) mod length colors;
          s1 = s\<lparr>currentColorIndex := i\<rparr>
      in case spaceship s1 of
           None \<Rightarrow> s1
         | Some ship \<Rightarrow>
             (let (ship', ms') = traverse (on_click_child (colors ! i)) ship (materials s1)
              in s1\<lparr>spaceship := Some ship', materials := ms',
                    console := console s1 @
                      [LogColor ''Spaceship color changed to: '' (colors ! i)]\<rparr>))"

definition resize :: "int \<Rightarrow> int \<Rightarrow> state \<Rightarrow> state" where
  "resize innerWidth innerHeight s =
     s\<lparr>camera := (camera s)\<lparr>aspect := (innerWidth, innerHeight)\<rparr>,
       renderer_size := (innerWidth, innerHeight)\<rparr>"

section \<open>The event loop\<close>

text \<open>
  After the script has run, the host calls back: an animation frame, a key, a click, a
  resize, or one of the two callbacks passed to \<^verbatim>\<open>loader.load\<close>. Each callback runs
  whenever the host calls it; the script has no guard of its own. \<open>loader_completed\<close>
  counts the loader callbacks that have run.
\<close>

datatype event =
  AnimationFrame
  | KeyDown string
  | Click
  | Resize int int
  | Loaded node
  | LoadFailed string

text \<open>The request is in flight while no loader callback has run for it.\<close>

definition load_in_flight :: "state \<Rightarrow> bool" where
  "load_in_flight s = (loader_completed s < length (loader_requests s))"

fun step :: "state \<Rightarrow> event \<Rightarrow> state" where
  "step s AnimationFrame = animate s"
| "step s (KeyDown key) = keydown key s"
| "step s Click = click s"
| "step s (Resize w h) = resize w h s"
| "step s (Loaded gltf_scene) =
     on_load gltf_scene (s\<lparr>loader_completed := Suc (loader_completed s)\<rparr>)"
| "step s (LoadFailed err) =
     on_error err (s\<lparr>loader_completed := Suc (loader_completed s)\<rparr>)"

definition run :: "state \<Rightarrow> event list \<Rightarrow> state" where
  "run s es = foldl step s es"

text \<open>
  The contract of the loader, a property of the host and not of the script: for the one
  request the script makes, the loader calls one of the two callbacks, once. A sequence of
  events obeys it when at most one of its events is a loader callback.
\<close>

fun is_completion :: "event \<Rightarrow> bool" where
  "is_completion (Loaded gltf_scene) = True"
| "is_completion (LoadFailed err) = True"
| "is_completion e = False"

definition loader_contract :: "event list \<Rightarrow> bool" where
  "loader_contract es = (length (filter is_completion es) \<le> 1)"

text \<open>The script ends with its first call of \<^verbatim>\<open>animate()\<close>.\<close>

definition script :: "int \<Rightarrow> int \<Rightarrow> (nat \<Rightarrow> number) \<Rightarrow> state" where
  "script innerWidth innerHeight rnd = animate (top_level innerWidth innerHeight rnd)"

section \<open>Observations used in the statements\<close>

text \<open>The value of \<^verbatim>\<open>spaceshipShaderMaterial.uniforms.time.value\<close>.\<close>

abbreviation shader_time :: "state \<Rightarrow> number" where
  "shader_time s \<equiv> time (materials s ! spaceshipShaderMaterial)"

text \<open>The materials of the mesh nodes of a subtree, in traversal order.\<close>

fun mesh_materials :: "node \<Rightarrow> material_ref list"
  and mesh_materials_children :: "node list \<Rightarrow> material_ref list"
  where
  "mesh_materials (Node t m cs) =
     (case m of None \<Rightarrow> [] | Some r \<Rightarrow> [r]) @ mesh_materials_children cs"
| "mesh_materials_children [] = []"
| "mesh_materials_children (c # cs) = mesh_materials c @ mesh_materials_children cs"

text \<open>A subtree with the material of every mesh forgotten: its shape and transforms.\<close>

fun strip_materials :: "node \<Rightarrow> node"
  and strip_materials_children :: "node list \<Rightarrow> node list"
  where
  "strip_materials (Node t m cs) =
     Node t (case m of None \<Rightarrow> None | Some _ \<Rightarrow> Some OtherMaterial) (strip_materials_children cs)"
| "strip_materials_children [] = []"
| "strip_materials_children (c # cs) = strip_materials c # strip_materials_children cs"

text \<open>
  The \<^verbatim>\<open>color\<close> uniform of each mesh of the spaceship, in traversal order (\<open>None\<close> for a
  mesh whose material is not a shader material of the store).
\<close>

definition mesh_color :: "shader_material list \<Rightarrow> material_ref \<Rightarrow> color option" where
  "mesh_color ms r =
     (case r of
        ShaderMaterial a \<Rightarrow> if a < length ms then Some (color (ms ! a)) else None
      | OtherMaterial \<Rightarrow> None)"

definition mesh_colors :: "state \<Rightarrow> color option list" where
  "mesh_colors s =
     (case spaceship s of
        None \<Rightarrow> []
      | Some ship \<Rightarrow> map (mesh_color (materials s)) (mesh_materials ship))"

text \<open>Once loaded, the spaceship sits at \<open>z = 0\<close> with scale 2.\<close>

definition ship_at_z0 :: "state \<Rightarrow> bool" where
  "ship_at_z0 s =
     (case spaceship s of None \<Rightarrow> True
      | Some ship \<Rightarrow> vec_z (position (transform ship)) = 0 \<and> scale (transform ship) = vec_set 2 2 2)"

text \<open>
  The material object a mesh receives on load: a clone of the shader material as it is in
  the store, flagged for update.
\<close>

definition fresh_clone :: "shader_material list \<Rightarrow> shader_material" where
  "fresh_clone ms = (clone (ms ! spaceshipShaderMaterial))\<lparr>needsUpdate := True\<rparr>"

text \<open>While the load is in flight there is no spaceship, in the state or in the scene.\<close>

definition not_loaded :: "state \<Rightarrow> bool" where
  "not_loaded s = (spaceship s = None \<and> Spaceship \<notin> set (scene s))"

text \<open>What the click callback does to a material, and to the store for one mesh.\<close>

definition paint :: "color \<Rightarrow> shader_material \<Rightarrow> shader_material" where
  "paint c m = m\<lparr>color := c, uniformsNeedUpdate := True\<rparr>"

definition paint_mesh :: "color \<Rightarrow> shader_material list \<Rightarrow> material_ref \<Rightarrow> shader_material list" where
  "paint_mesh c ms r = snd (on_click_child c (Some r) ms)"

text \<open>
  The shape of the store: the shader material comes first, and the materials of the meshes
  of the spaceship, once it is loaded, are the last objects of the store, one for each
  mesh, in traversal order.
\<close>

definition store_ok :: "state \<Rightarrow> bool" where
  "store_ok s =
     (case spaceship s of
        None \<Rightarrow> 0 < length (materials s)
      | Some ship \<Rightarrow>
          length (mesh_materials ship) < length (materials s) \<and>
          mesh_materials ship =
            map ShaderMaterial
              [length (materials s) - length (mesh_materials ship)..<length (materials s)])"

section \<open>Concrete inputs\<close>

text \<open>Random sources whose every draw is 0, 0.7 or 0.9, and a model of one group with two meshes.\<close>

definition zero_draws :: "nat \<Rightarrow> number" where
  "zero_draws k = 0"

definition draws_0_7 :: "nat \<Rightarrow> number" where
  "draws_0_7 k = round64 (7 / 10)"

definition draws_0_9 :: "nat \<Rightarrow> number" where
  "draws_0_9 k = round64 (9 / 10)"

definition two_mesh_model :: node where
  "two_mesh_model =
     Node new_object3D None
       [Node new_object3D (Some OtherMaterial) [], Node new_object3D (Some OtherMaterial) []]"

section \<open>Rounding to binary64\<close>

lemma bitlen_powi_bounds:
  assumes "0 < p"
  shows "2 powi (bitlen p - 1) \<le> (of_int p :: rat)" and "(of_int p :: rat) < 2 powi bitlen p"
proof -
  from bitlen_bounds[OF assms]
  have b: "2 ^ nat (bitlen p - 1) \<le> p" "p < 2 ^ nat (bitlen p)" by auto
  have pos: "1 \<le> bitlen p" using assms by (auto simp: bitlen_alt_def)
  have "(of_int (2 ^ nat (bitlen p - 1)) :: rat) \<le> of_int p" using b(1) by (simp only: of_int_le_iff)
  then show "2 powi (bitlen p - 1) \<le> (of_int p :: rat)"
    using pos by (simp add: power_int_def)
  have "(of_int p :: rat) < of_int (2 ^ nat (bitlen p))" using b(2) by (simp only: of_int_less_iff)
  then show "(of_int p :: rat) < 2 powi bitlen p"
    using pos by (simp add: power_int_def)
qed

lemma exponent_bounds:
  assumes "0 < x"
  shows "2 powi exponent x \<le> x \<and> x < 2 powi (exponent x + 1)"
proof -
  obtain p q where pq: "quotient_of x = (p, q)" by (cases "quotient_of x")
  have q: "0 < q" using quotient_of_denom_pos[OF pq] .
  have x: "x = of_int p / of_int q" using quotient_of_div[OF pq] .
  have p: "0 < p" using assms q x by (simp add: zero_less_divide_iff)
  define d where "d = bitlen p - bitlen q"
  define a :: rat where "a = of_int p"
  define b :: rat where "b = of_int q"
  have b0: "0 < b" using q by (simp add: b_def)
  note A = bitlen_powi_bounds[OF p, folded a_def]
  note B = bitlen_powi_bounds[OF q, folded b_def]
  have e1: "(2::rat) powi bitlen p = 2 powi (d + 1) * 2 powi (bitlen q - 1)"
    by (simp add: d_def power_int_add[symmetric])
  have e2: "(2::rat) powi (bitlen p - 1) = 2 powi (d - 1) * 2 powi bitlen q"
    by (simp add: d_def power_int_add[symmetric])
  have "a < 2 powi (d + 1) * 2 powi (bitlen q - 1)" using A(2) e1 by simp
  also have "\<dots> \<le> 2 powi (d + 1) * b" using B(1) by (simp add: mult_left_mono)
  finally have up: "x < 2 powi (d + 1)"
    using b0 by (simp add: x a_def[symmetric] b_def[symmetric] pos_divide_less_eq)
  have "2 powi (d - 1) * b < 2 powi (d - 1) * 2 powi bitlen q"
    using B(2) by (simp add: mult_strict_left_mono)
  also have "\<dots> \<le> a" using A(1) e2 by simp
  finally have lo: "2 powi (d - 1) < x"
    using b0 by (simp add: x a_def[symmetric] b_def[symmetric] pos_less_divide_eq)
  have ex: "exponent x = (if 2 powi d \<le> x then d else d - 1)"
    by (simp add: exponent_def pq d_def)
  show ?thesis
  proof (cases "2 powi d \<le> x")
    case True
    then show ?thesis using up ex by simp
  next
    case False
    then show ?thesis using lo ex by simp
  qed
qed

lemma round_half_even_err: "\<bar>of_int (round_half_even q) - q\<bar> \<le> 1 / 2"
proof -
  have "of_int \<lfloor>q\<rfloor> \<le> q" "q < of_int \<lfloor>q\<rfloor> + 1" by linarith+
  then show ?thesis
    by (auto simp: round_half_even_def Let_def)
qed

lemma exponent_less:
  assumes "0 < x" "x < 2 powi k"
  shows "exponent x < k"
proof (rule ccontr)
  assume "\<not> exponent x < k"
  then have "k \<le> exponent x" by simp
  then have "(2::rat) powi k \<le> 2 powi exponent x" by (simp add: power_int_increasing)
  with exponent_bounds[OF assms(1)] assms(2) show False by simp
qed

lemma round64_err:
  assumes "0 < x"
  shows "\<bar>round64 x - x\<bar> \<le> 2 powi (exponent x - 53)"
proof -
  define u :: rat where "u = 2 powi (exponent x - 52)"
  have u0: "0 < u" by (simp add: u_def)
  have r: "round64 x = of_int (round_half_even (x / u)) * u"
    using assms by (simp add: round64_def Let_def u_def)
  have "round64 x - x = (of_int (round_half_even (x / u)) - x / u) * u"
    using u0 by (simp add: r left_diff_distrib)
  then have "\<bar>round64 x - x\<bar> = \<bar>of_int (round_half_even (x / u)) - x / u\<bar> * u"
    using u0 by (simp add: abs_mult)
  also have "\<dots> \<le> 1 / 2 * u"
    using round_half_even_err[of "x / u"] u0 by (simp add: mult_right_mono)
  also have "\<dots> = 2 powi (exponent x - 53)"
    by (simp add: u_def power_int_diff)
  finally show ?thesis .
qed

lemma lit_1_20: "round64 (1 / 20) = 3602879701896397 / 72057594037927936"
  by code_simp

lemma time_strictly_increases:
  assumes "0 \<le> t" "t + round64 (1 / 20) < 2 powi 49"
  shows "t < js_add t (round64 (1 / 20))"
proof -
  define c where "c = round64 (1 / 20)"
  have c: "1 / 32 < c" by (simp add: c_def lit_1_20)
  have pos: "0 < t + c" using assms(1) c by simp
  have "exponent (t + c) < 49" using exponent_less[OF pos] assms(2) by (simp add: c_def)
  then have "(2::rat) powi (exponent (t + c) - 53) \<le> 2 powi (- 5)"
    by (intro power_int_increasing) auto
  with round64_err[OF pos] have "\<bar>round64 (t + c) - (t + c)\<bar> \<le> 1 / 32"
    by (simp add: power_int_minus)
  then show ?thesis using c unfolding js_add_def c_def[symmetric] by linarith
qed

section \<open>Runs of the event loop\<close>

lemmas handler_defs =
  animate_def keydown_def click_def resize_def on_load_def on_error_def

lemma asteroidSpeed_step: "asteroidSpeed (step s e) = asteroidSpeed s"
  by (cases e) (simp_all add: handler_defs Let_def split: option.splits prod.splits)

lemma run_snoc: "run s (es @ [e]) = step (run s es) e"
  by (simp add: run_def)

lemma run_Nil: "run s [] = s"
  by (simp add: run_def)

lemma asteroidSpeed_run: "asteroidSpeed (run s es) = asteroidSpeed s"
  by (induction es rule: rev_induct) (simp_all add: run_snoc run_Nil asteroidSpeed_step)

lemma asteroidSpeed_script: "asteroidSpeed (script w h rnd) = round64 (1 / 10)"
  by (simp add: script_def animate_def top_level_def Let_def)

lemma asteroids_animate:
  "asteroids (animate s) = map (animate_asteroid (asteroidSpeed s)) (asteroids s)"
  by (simp add: animate_def Let_def split: option.splits)

section \<open>The asteroid field\<close>

lemma wrap_9_95: "10 < js_add (round64 (199 / 20)) (round64 (1 / 10))"
  by code_simp

text \<open>
  Claim C1. On every render tick, every asteroid's \<open>position.z\<close> is first incremented by
  \<^verbatim>\<open>asteroidSpeed\<close> (0.1 in every reachable state) and only then compared with 10: the
  new value is \<open>- 50\<close> when the incremented value exceeds 10, and the incremented value
  otherwise. An asteroid at \<open>z = 9.95\<close> ends the tick at \<open>- 50\<close>.
\<close>

theorem asteroid_increment_then_threshold:
  "asteroids (animate (run (script w h rnd) es)) =
     map (animate_asteroid (round64 (1 / 10))) (asteroids (run (script w h rnd) es))
   \<and> vec_z (position (animate_asteroid (round64 (1 / 10)) a)) =
       (if 10 < js_add (vec_z (position a)) (round64 (1 / 10)) then - 50
        else js_add (vec_z (position a)) (round64 (1 / 10)))
   \<and> vec_z (position (animate_asteroid (round64 (1 / 10))
         (a\<lparr>position := (position a)\<lparr>vec_z := round64 (199 / 20)\<rparr>\<rparr>))) = - 50"
proof (intro conjI)
  show "asteroids (animate (run (script w h rnd) es)) =
     map (animate_asteroid (round64 (1 / 10))) (asteroids (run (script w h rnd) es))"
    by (simp add: asteroids_animate asteroidSpeed_run asteroidSpeed_script)
  show "vec_z (position (animate_asteroid (round64 (1 / 10)) a)) =
       (if 10 < js_add (vec_z (position a)) (round64 (1 / 10)) then - 50
        else js_add (vec_z (position a)) (round64 (1 / 10)))"
    by (simp add: animate_asteroid_def Let_def)
  show "vec_z (position (animate_asteroid (round64 (1 / 10))
         (a\<lparr>position := (position a)\<lparr>vec_z := round64 (199 / 20)\<rparr>\<rparr>))) = - 50"
    using wrap_9_95 by (simp add: animate_asteroid_def Let_def)
qed

lemma length_asteroids_step: "length (asteroids (step s e)) = length (asteroids s)"
  by (cases e) (simp_all add: handler_defs Let_def split: option.splits prod.splits)

lemma length_asteroids_run: "length (asteroids (run s es)) = length (asteroids s)"
  by (induction es rule: rev_induct) (simp_all add: run_snoc run_Nil length_asteroids_step)

lemma length_asteroids_script: "length (asteroids (script w h rnd)) = 50"
  by (simp add: script_def asteroids_animate top_level_def)

lemma animate_asteroid_z:
  "vec_z (position (animate_asteroid speed a)) =
     (if 10 < js_add (vec_z (position a)) speed then - 50 else js_add (vec_z (position a)) speed)"
  by (simp add: animate_asteroid_def Let_def)

lemma first_asteroid_0_7:
  "vec_z (position (asteroids (top_level 800 600 draws_0_7) ! 0)) = 10"
proof -
  have "js_sub (js_mul (round64 (7 / 10)) 50) 25 = 10" by code_simp
  then show ?thesis
    by (simp add: top_level_def new_asteroid_def draws_0_7_def vec_set_def nth_append)
qed

lemma ten_plus_speed: "js_add 10 (round64 (1 / 10)) = 5685794529555251 / 562949953421312"
  by code_simp

lemma nine95: "round64 (199 / 20) = 2800676018271027 / 281474976710656"
  "js_add (round64 (199 / 20)) (round64 (1 / 10)) = 5657647031884185 / 562949953421312"
  by code_simp+

text \<open>
  Claim C2, as amended. For every \<open>i\<close> in \<open>[0, 50)\<close> and every render tick, the
  \<open>position.z\<close> of asteroid \<open>i\<close> after the tick is its prior value plus 0.1, unless that
  incremented value (not the prior value) is greater than 10, in which case it is exactly
  \<open>- 50\<close>. There are 50 asteroids in every reachable state.
\<close>

theorem asteroid_wrap_on_incremented_value:
  assumes "s = run (script w h rnd) es" "i < 50"
  shows "length (asteroids s) = 50
    \<and> length (asteroids (animate s)) = 50
    \<and> vec_z (position (asteroids (animate s) ! i)) =
        (if 10 < js_add (vec_z (position (asteroids s ! i))) (round64 (1 / 10)) then - 50
         else js_add (vec_z (position (asteroids s ! i))) (round64 (1 / 10)))"
proof -
  have l: "length (asteroids s) = 50"
    by (simp add: assms(1) length_asteroids_run length_asteroids_script)
  have sp: "asteroidSpeed s = round64 (1 / 10)"
    by (simp add: assms(1) asteroidSpeed_run asteroidSpeed_script)
  show ?thesis
    using l assms(2) by (simp add: asteroids_animate sp animate_asteroid_z)
qed

theorem asteroid_wrap_on_incremented_value_witness:
  "(7::nat) < 50
   \<and> length (asteroids (run (script 800 600 zero_draws) [Click])) = 50
   \<and> vec_z (position (asteroids (animate (run (script 800 600 zero_draws) [Click])) ! 7)) =
       (if 10 < js_add (vec_z (position (asteroids (run (script 800 600 zero_draws) [Click]) ! 7)))
                  (round64 (1 / 10))
        then - 50
        else js_add (vec_z (position (asteroids (run (script 800 600 zero_draws) [Click]) ! 7)))
               (round64 (1 / 10)))"
  using asteroid_wrap_on_incremented_value[OF refl, of 7 800 600 zero_draws "[Click]"] by simp

text \<open>
  Claim C2 as stated tests the prior value, and fails: an asteroid at \<open>z = 9.95\<close>, which is
  not greater than 10, ends the tick at \<open>- 50\<close> and not at \<open>9.95 + 0.1\<close>; and when every
  random draw is 0.7 the first asteroid is created at \<open>z = 10\<close>, not greater than 10, and
  the first tick already puts it at \<open>- 50\<close>.
\<close>

theorem asteroid_prior_threshold_counterexample:
  "vec_z (position (animate_asteroid (round64 (1 / 10))
       (new_object3D\<lparr>position := vec_set 0 0 (round64 (199 / 20))\<rparr>))) = - 50
   \<and> \<not> 10 < vec_z (position (new_object3D\<lparr>position := vec_set 0 0 (round64 (199 / 20))\<rparr>))
   \<and> js_add (vec_z (position (new_object3D\<lparr>position := vec_set 0 0 (round64 (199 / 20))\<rparr>)))
        (round64 (1 / 10)) \<noteq> - 50
   \<and> vec_z (position (asteroids (top_level 800 600 draws_0_7) ! 0)) = 10
   \<and> vec_z (position (asteroids (animate (top_level 800 600 draws_0_7)) ! 0)) = - 50"
proof -
  have l: "0 < length (asteroids (top_level 800 600 draws_0_7))" by (simp add: top_level_def)
  have sp: "asteroidSpeed (top_level 800 600 draws_0_7) = round64 (1 / 10)"
    by (simp add: top_level_def)
  have a: "vec_z (position (asteroids (animate (top_level 800 600 draws_0_7)) ! 0)) = - 50"
    using l by (simp add: asteroids_animate sp animate_asteroid_z first_asteroid_0_7 ten_plus_speed)
  have z: "vec_z (position (new_object3D\<lparr>position := vec_set 0 0 (round64 (199 / 20))\<rparr>))
      = round64 (199 / 20)"
    by (simp add: vec_set_def)
  have b: "vec_z (position (animate_asteroid (round64 (1 / 10))
       (new_object3D\<lparr>position := vec_set 0 0 (round64 (199 / 20))\<rparr>))) = - 50"
    unfolding animate_asteroid_z z nine95(2) by simp
  have c: "\<not> 10 < round64 (199 / 20)" unfolding nine95(1) by simp
  have d: "js_add (round64 (199 / 20)) (round64 (1 / 10)) \<noteq> - 50" unfolding nine95(2) by simp
  show ?thesis
    unfolding z using a b c d first_asteroid_0_7 by (intro conjI)
qed

lemma animate_asteroid_xy:
  "vec_x (position (animate_asteroid speed a)) = vec_x (position a)"
  "vec_y (position (animate_asteroid speed a)) = vec_y (position a)"
  by (simp_all add: animate_asteroid_def Let_def)

lemma animate_asteroid_le_10: "vec_z (position (animate_asteroid speed a)) \<le> 10"
  by (simp add: animate_asteroid_z)

lemma first_asteroid_0_9:
  "vec_z (position (asteroids (top_level 800 600 draws_0_9) ! 0)) = 20"
proof -
  have "js_sub (js_mul (round64 (9 / 10)) 50) 25 = 20" by code_simp
  then show ?thesis
    by (simp add: top_level_def new_asteroid_def draws_0_9_def vec_set_def nth_append)
qed

text \<open>
  Claim C9. After a render tick, from any state, every asteroid has \<open>position.z \<le> 10\<close>,
  also when it started above 10; the tick changes no asteroid's \<open>position.x\<close> or
  \<open>position.y\<close>, and keeps the number of asteroids.
\<close>

theorem asteroid_z_bounded_xy_kept:
  "(\<forall>a \<in> set (asteroids (animate s)). vec_z (position a) \<le> 10)
   \<and> length (asteroids (animate s)) = length (asteroids s)
   \<and> map (\<lambda>a. vec_x (position a)) (asteroids (animate s)) = map (\<lambda>a. vec_x (position a)) (asteroids s)
   \<and> map (\<lambda>a. vec_y (position a)) (asteroids (animate s)) = map (\<lambda>a. vec_y (position a)) (asteroids s)"
  by (auto simp: asteroids_animate animate_asteroid_le_10 animate_asteroid_xy)

theorem asteroid_z_bounded_xy_kept_witness:
  "10 < vec_z (position (asteroids (top_level 800 600 draws_0_9) ! 0))
   \<and> asteroids (animate (top_level 800 600 draws_0_9)) ! 0
        \<in> set (asteroids (animate (top_level 800 600 draws_0_9)))
   \<and> vec_z (position (asteroids (animate (top_level 800 600 draws_0_9)) ! 0)) \<le> 10"
proof -
  have l: "0 < length (asteroids (animate (top_level 800 600 draws_0_9)))"
    by (simp add: asteroids_animate top_level_def)
  then have m: "asteroids (animate (top_level 800 600 draws_0_9)) ! 0
        \<in> set (asteroids (animate (top_level 800 600 draws_0_9)))"
    by (rule nth_mem)
  from asteroid_z_bounded_xy_kept[of "top_level 800 600 draws_0_9"] m
  have "vec_z (position (asteroids (animate (top_level 800 600 draws_0_9)) ! 0)) \<le> 10"
    by blast
  then show ?thesis using m by (simp add: first_asteroid_0_9)
qed

section \<open>Traversal and the material store\<close>

lemma node_list_induct [case_names Node Nil Cons]:
  assumes N: "\<And>t m cs. Q cs \<Longrightarrow> P (Node t m cs)"
    and E: "Q []"
    and C: "\<And>c cs. P c \<Longrightarrow> Q cs \<Longrightarrow> Q (c # cs)"
  shows "P n" and "Q ns"
proof -
  show p: "P n" for n
  proof (induction n)
    case (Node t m cs)
    have "Q cs" using Node by (induction cs) (auto intro: E C)
    then show ?case by (rule N)
  qed
  show "Q ns" by (induction ns) (auto intro: E C p)
qed

lemma traverse_Node:
  "traverse f (Node t m cs) s =
     (Node t (fst (f m s)) (fst (traverse_children f cs (snd (f m s)))),
      snd (traverse_children f cs (snd (f m s))))"
  by (simp add: split_beta Let_def)

lemma traverse_children_Cons:
  "traverse_children f (c # cs) s =
     (fst (traverse f c s) # fst (traverse_children f cs (snd (traverse f c s))),
      snd (traverse_children f cs (snd (traverse f c s))))"
  by (simp add: split_beta Let_def)

declare traverse.simps [simp del] traverse_children.simps(2) [simp del]

lemmas traverse_unfold = traverse_Node traverse_children_Cons

lemma traverse_invariant:
  assumes "\<And>m s. P s \<Longrightarrow> P (snd (f m s))"
  shows "P s \<Longrightarrow> P (snd (traverse f n s))"
    and "P s \<Longrightarrow> P (snd (traverse_children f ns s))"
  by (induction n and ns arbitrary: s and s rule: node_list_induct)
     (simp_all add: traverse_unfold assms)

lemma on_click_child_times:
  "map time ms = ts \<Longrightarrow> map time (snd (on_click_child c m ms)) = ts"
proof -
  have "(map time ms)[a := time (ms ! a)] = map time ms" for a
    using map_update[of time ms a "ms ! a"] by simp
  then show "map time ms = ts \<Longrightarrow> map time (snd (on_click_child c m ms)) = ts"
    by (auto simp: on_click_child_def map_update split: option.splits material_ref.splits)
qed

lemma on_load_child_extends:
  "\<exists>xs. ms = ms0 @ xs \<Longrightarrow> \<exists>xs. snd (on_load_child m ms) = ms0 @ xs"
  by (auto simp: on_load_child_def split: option.splits)

lemma click_times: "map time (materials (click s)) = map time (materials s)"
  using traverse_invariant(1)[where P = "\<lambda>ms. map time ms = map time (materials s)"
      and f = "on_click_child c" for c, OF on_click_child_times]
  by (auto simp: click_def Let_def split_beta split: option.splits)

lemma on_load_extends: "\<exists>xs. materials (on_load g s) = materials s @ xs"
  using traverse_invariant(1)[where P = "\<lambda>ms. \<exists>xs. ms = materials s @ xs"
      and f = on_load_child, OF on_load_child_extends]
  by (simp add: on_load_def Let_def split_beta)

section \<open>The shader time uniform\<close>

lemma round64_pos:
  assumes "0 < x"
  shows "0 < round64 x"
proof -
  define p :: rat where "p = 2 powi (exponent x - 53)"
  have p: "0 < p" by (simp add: p_def)
  have "2 powi exponent x = p * 2 ^ 53" by (simp add: p_def power_int_diff)
  with p have "p < 2 powi exponent x" by simp
  with exponent_bounds[OF assms] round64_err[OF assms, folded p_def] show ?thesis by linarith
qed

lemma tick_error:
  assumes "0 \<le> t" "t + round64 (1 / 20) < 2 powi 16"
  shows "\<bar>js_add t (round64 (1 / 20)) - (t + 1 / 20)\<bar> \<le> 1 / 2 ^ 37"
proof -
  define c where "c = round64 (1 / 20)"
  have c: "1 / 32 < c" "\<bar>c - 1 / 20\<bar> \<le> 1 / 2 ^ 38" by (simp_all add: c_def lit_1_20)
  have pos: "0 < t + c" using assms(1) c by simp
  have "exponent (t + c) < 16" using exponent_less[OF pos] assms(2) by (simp add: c_def)
  then have "(2::rat) powi (exponent (t + c) - 53) \<le> 2 powi (- 38)"
    by (intro power_int_increasing) auto
  with round64_err[OF pos] have r: "\<bar>round64 (t + c) - (t + c)\<bar> \<le> 1 / 2 ^ 38"
    by (simp add: power_int_minus divide_simps)
  have "\<bar>round64 (t + c) - (t + 1 / 20)\<bar> \<le> \<bar>round64 (t + c) - (t + c)\<bar> + \<bar>c - 1 / 20\<bar>"
    by linarith
  also have "\<dots> \<le> 1 / 2 ^ 38 + 1 / 2 ^ 38" using r c(2) by (rule add_mono)
  also have "\<dots> = 1 / 2 ^ 37" by simp
  finally show ?thesis unfolding js_add_def c_def[symmetric] .
qed

lemma animate_shader_time:
  assumes "materials s \<noteq> []"
  shows "shader_time (animate s) = js_add (shader_time s) (round64 (1 / 20))"
    and "frames (animate s) = Suc (frames s)"
    and "materials (animate s) \<noteq> []"
  using assms by (simp_all add: animate_def Let_def spaceshipShaderMaterial_def)

lemma step_shader_time:
  assumes "materials s \<noteq> []" "e \<noteq> AnimationFrame"
  shows "shader_time (step s e) = shader_time s"
    and "frames (step s e) = frames s"
    and "materials (step s e) \<noteq> []"
proof -
  have c: "map time (materials (click s)) = map time (materials s)" by (rule click_times)
  then have cl: "length (materials (click s)) = length (materials s)" by (rule map_eq_imp_length_eq)
  have "time (materials (click s) ! 0) = map time (materials (click s)) ! 0"
    using assms(1) cl by simp
  also have "\<dots> = time (materials s ! 0)" using assms(1) by (simp add: c)
  finally have ct: "shader_time (click s) = shader_time s" by (simp add: spaceshipShaderMaterial_def)
  have cf: "frames (click s) = frames s"
    by (simp add: click_def Let_def split_beta split: option.splits)
  have lo: "shader_time (on_load g s') = shader_time s' \<and> materials (on_load g s') \<noteq> []"
    if "materials s' \<noteq> []" for g s'
    using on_load_extends[of g s'] that by (auto simp: spaceshipShaderMaterial_def nth_append)
  have lf: "frames (on_load g s') = frames s'" for g s'
    by (simp add: on_load_def Let_def split_beta)
  show "shader_time (step s e) = shader_time s"
    using assms ct lo by (cases e) (simp_all add: keydown_def resize_def on_error_def split: option.splits)
  show "frames (step s e) = frames s"
    using assms cf lf by (cases e) (simp_all add: keydown_def resize_def on_error_def split: option.splits)
  show "materials (step s e) \<noteq> []"
    using assms cl lo by (cases e) (auto simp add: keydown_def resize_def on_error_def split: option.splits)
qed

lemma frames_run:
  "materials (run (script w h rnd) es) \<noteq> [] \<and>
   frames (run (script w h rnd) es) = Suc (count_list es AnimationFrame)"
proof (induction es rule: rev_induct)
  case Nil
  have m: "materials (top_level w h rnd) \<noteq> []" "frames (top_level w h rnd) = 0"
    by (simp_all add: top_level_def)
  show ?case using animate_shader_time(2,3)[OF m(1)] m(2) by (simp add: run_Nil script_def)
next
  case (snoc e es)
  then show ?case
    using animate_shader_time(2,3)[of "run (script w h rnd) es"]
      step_shader_time(2,3)[of "run (script w h rnd) es" e]
    by (cases "e = AnimationFrame") (simp_all add: run_snoc)
qed

lemma shader_time_run:
  fixes w h rnd es
  defines "s \<equiv> run (script w h rnd) es"
  shows "0 < shader_time s \<and>
     (frames s \<le> 1000000 \<longrightarrow>
          \<bar>shader_time s - (1 + of_nat (frames s) / 20)\<bar> \<le> of_nat (frames s) / 2 ^ 37)"
  unfolding s_def
proof (induction es rule: rev_induct)
  case Nil
  have m: "materials (top_level w h rnd) \<noteq> []" "shader_time (top_level w h rnd) = 1"
    "frames (top_level w h rnd) = 0"
    by (simp_all add: top_level_def spaceshipShaderMaterial_def)
  have "\<bar>js_add 1 (round64 (1 / 20)) - (1 + 1 / 20)\<bar> \<le> 1 / 2 ^ 37"
    by (rule tick_error) (simp_all add: lit_1_20)
  moreover have "0 < js_add 1 (round64 (1 / 20))"
    unfolding js_add_def by (rule round64_pos) (simp add: lit_1_20)
  ultimately show ?case
    using animate_shader_time[OF m(1)] m by (simp add: run_Nil script_def)
next
  case (snoc e es)
  define s where "s = run (script w h rnd) es"
  note IH = snoc[folded s_def]
  have ne: "materials s \<noteq> []" using frames_run by (simp add: s_def)
  show ?case
  proof (cases "e = AnimationFrame")
    case True
    note A = animate_shader_time[OF ne]
    have pos: "0 < shader_time (animate s)"
      unfolding A(1) js_add_def using IH by (intro round64_pos) (simp add: lit_1_20)
    have err: "\<bar>shader_time (animate s) - (1 + of_nat (frames (animate s)) / 20)\<bar>
        \<le> of_nat (frames (animate s)) / 2 ^ 37" if le: "frames (animate s) \<le> 1000000"
    proof -
      define n where "n = frames s"
      define t where "t = shader_time s"
      have n: "n < 1000000" using le A(2) by (simp add: n_def)
      then have nr: "(of_nat n :: rat) < 1000000" by (metis of_nat_less_iff of_nat_numeral)
      have i: "\<bar>t - (1 + of_nat n / 20)\<bar> \<le> of_nat n / 2 ^ 37" "0 < t"
        using IH n by (simp_all add: n_def t_def)
      have "t \<le> 1 + of_nat n / 20 + of_nat n / 2 ^ 37" using i(1) by linarith
      moreover have "of_nat n / 20 < (50000::rat)" using nr by simp
      moreover have "of_nat n / 2 ^ 37 < (1::rat)" using nr by simp
      ultimately have "t < 50002" by linarith
      then have "t + round64 (1 / 20) < 2 powi 16" by (simp add: lit_1_20)
      from tick_error[OF _ this] i(2)
      have e: "\<bar>js_add t (round64 (1 / 20)) - (t + 1 / 20)\<bar> \<le> 1 / 2 ^ 37" by simp
      define b :: rat where "b = 1 + of_nat n / 20"
      define a where "a = js_add t (round64 (1 / 20))"
      have "\<bar>a - (b + 1 / 20)\<bar> \<le> \<bar>a - (t + 1 / 20)\<bar> + \<bar>t - b\<bar>" by linarith
      also have "\<dots> \<le> 1 / 2 ^ 37 + of_nat n / 2 ^ 37"
        using e i(1) unfolding a_def b_def by (rule add_mono)
      also have "\<dots> = (of_nat n + 1) / 2 ^ 37" by (simp add: add_divide_distrib)
      finally have "\<bar>a - (b + 1 / 20)\<bar> \<le> (of_nat n + 1) / 2 ^ 37" .
      moreover have "b + 1 / 20 = 1 + (of_nat n + 1) / 20" by (simp add: b_def add_divide_distrib)
      ultimately have "\<bar>a - (1 + (of_nat n + 1) / 20)\<bar> \<le> (of_nat n + 1) / 2 ^ 37" by simp
      then show ?thesis
        by (simp add: A n_def[symmetric] t_def[symmetric] a_def[symmetric] add.commute)
    qed
    show ?thesis
      using True pos err by (simp add: run_snoc s_def[symmetric])
  next
    case False
    note S = step_shader_time[OF ne False]
    show ?thesis using False IH S by (simp add: run_snoc s_def[symmetric])
  qed
qed

lemma shader_time_iterate:
  "shader_time (run (script w h rnd) es) =
     ((\<lambda>t. js_add t (round64 (1 / 20))) ^^ frames (run (script w h rnd) es)) 1"
proof (induction es rule: rev_induct)
  case Nil
  have m: "materials (top_level w h rnd) \<noteq> []" "shader_time (top_level w h rnd) = 1"
    "frames (top_level w h rnd) = 0"
    by (simp_all add: top_level_def spaceshipShaderMaterial_def)
  show ?case using animate_shader_time[OF m(1)] m by (simp add: run_Nil script_def)
next
  case (snoc e es)
  have ne: "materials (run (script w h rnd) es) \<noteq> []" using frames_run by simp
  show ?case
    using snoc animate_shader_time[OF ne] step_shader_time[OF ne, of e]
    by (cases "e = AnimationFrame") (simp_all add: run_snoc)
qed

lemma three_ticks:
  "js_add (js_add (js_add 1 (round64 (1 / 20))) (round64 (1 / 20))) (round64 (1 / 20))
     = 5179139571476071 / 4503599627370496"
  "js_add (js_add 1 (round64 (1 / 20))) (round64 (1 / 20)) = 2476979795053773 / 2251799813685248"
  "js_add 1 (js_mul (round64 (1 / 20)) 3) = 2589569785738035 / 2251799813685248"
  "round64 (1 + 1 / 20 * 3) = 2589569785738035 / 2251799813685248"
  by code_simp+

text \<open>
  Claim C3, as amended. The time uniform of the shader material starts at 1.0. Every render
  tick replaces it by the binary64 sum of its value and 0.05, which is strictly greater
  than the value before as long as the value is below \<open>2 ^ 49\<close>. After \<open>n\<close> ticks (the script's own
  first call of \<^verbatim>\<open>animate\<close> included; \<open>frames\<close> counts them) the value is the \<open>n\<close>-fold
  rounded sum, which is \<open>1.0 + 0.05 n\<close> up to rounding only: within \<open>n / 2 ^ 37\<close> of it
  during the first million ticks.
\<close>

theorem shader_time_per_tick:
  assumes "s = run (script w h rnd) es"
  shows "shader_time (top_level w h rnd) = 1
    \<and> shader_time (script w h rnd) = js_add 1 (round64 (1 / 20))
    \<and> shader_time (animate s) = js_add (shader_time s) (round64 (1 / 20))
    \<and> frames s = Suc (count_list es AnimationFrame)
    \<and> frames (animate s) = Suc (frames s)
    \<and> shader_time s = ((\<lambda>t. js_add t (round64 (1 / 20))) ^^ frames s) 1
    \<and> (shader_time s + round64 (1 / 20) < 2 powi 49 \<longrightarrow> shader_time s < shader_time (animate s))
    \<and> (frames s \<le> 1000000 \<longrightarrow>
         \<bar>shader_time s - (1 + of_nat (frames s) / 20)\<bar> \<le> of_nat (frames s) / 2 ^ 37)"
proof -
  have ne: "materials s \<noteq> []" using frames_run assms by simp
  have m: "materials (top_level w h rnd) \<noteq> []" "shader_time (top_level w h rnd) = 1"
    by (simp_all add: top_level_def spaceshipShaderMaterial_def)
  have pos: "0 \<le> shader_time s" using shader_time_run[of w h rnd es] assms by simp
  show ?thesis
    using animate_shader_time[OF ne] animate_shader_time(1)[OF m(1)] m(2)
      frames_run[of w h rnd es] shader_time_iterate[of w h rnd es]
      shader_time_run[of w h rnd es] time_strictly_increases[OF pos]
    by (simp add: assms script_def)
qed

theorem shader_time_per_tick_witness:
  "shader_time (run (script 800 600 zero_draws) [Click, AnimationFrame]) + round64 (1 / 20) < 2 powi 49
   \<and> frames (run (script 800 600 zero_draws) [Click, AnimationFrame]) \<le> 1000000
   \<and> shader_time (run (script 800 600 zero_draws) [Click, AnimationFrame])
       < shader_time (animate (run (script 800 600 zero_draws) [Click, AnimationFrame]))
   \<and> \<bar>shader_time (run (script 800 600 zero_draws) [Click, AnimationFrame]) - (1 + 2 / 20)\<bar>
       \<le> 2 / 2 ^ 37"
proof -
  define s where "s = run (script 800 600 zero_draws) [Click, AnimationFrame]"
  note T = shader_time_per_tick[OF s_def]
  have f: "frames s = 2" using T by simp
  have "shader_time s = ((\<lambda>t. js_add t (round64 (1 / 20))) ^^ frames s) 1" using T by blast
  then have "shader_time s = js_add (js_add 1 (round64 (1 / 20))) (round64 (1 / 20))"
    by (simp add: f numeral_2_eq_2)
  then have t: "shader_time s = 2476979795053773 / 2251799813685248"
    by (simp only: three_ticks(2))
  have h: "shader_time s + round64 (1 / 20) < 2 powi 49" by (simp add: t lit_1_20)
  have inc: "shader_time s + round64 (1 / 20) < 2 powi 49 \<longrightarrow> shader_time s < shader_time (animate s)"
    using T by blast
  have err: "frames s \<le> 1000000 \<longrightarrow>
      \<bar>shader_time s - (1 + of_nat (frames s) / 20)\<bar> \<le> of_nat (frames s) / 2 ^ 37"
    using T by blast
  have e2: "\<bar>shader_time s - (1 + 2 / 20)\<bar> \<le> 2 / 2 ^ 37" using err by (simp add: f)
  show ?thesis
    unfolding s_def[symmetric] using h inc e2 by (simp add: f)
qed

text \<open>
  Claim C3 as stated fails: after three ticks the uniform is 1.1500000000000001, which is
  neither the rational \<open>1 + 0.05 * 3\<close>, nor the binary64 value nearest to it, nor the value
  of the JavaScript expression \<^verbatim>\<open>1.0 + 0.05 * 3\<close>.
\<close>

theorem shader_time_closed_form_counterexample:
  "frames (run (script 800 600 zero_draws) [AnimationFrame, AnimationFrame]) = 3
   \<and> shader_time (run (script 800 600 zero_draws) [AnimationFrame, AnimationFrame]) \<noteq> 1 + 1 / 20 * 3
   \<and> shader_time (run (script 800 600 zero_draws) [AnimationFrame, AnimationFrame])
       \<noteq> round64 (1 + 1 / 20 * 3)
   \<and> shader_time (run (script 800 600 zero_draws) [AnimationFrame, AnimationFrame])
       \<noteq> js_add 1 (js_mul (round64 (1 / 20)) 3)"
proof -
  define s where "s = run (script 800 600 zero_draws) [AnimationFrame, AnimationFrame]"
  have f: "frames s = 3"
    unfolding s_def using frames_run[of 800 600 zero_draws "[AnimationFrame, AnimationFrame]"] by simp
  have "shader_time s =
      js_add (js_add (js_add 1 (round64 (1 / 20))) (round64 (1 / 20))) (round64 (1 / 20))"
    unfolding s_def shader_time_iterate by (simp add: f[unfolded s_def] numeral_3_eq_3)
  then have t: "shader_time s = 5179139571476071 / 4503599627370496"
    by (simp only: three_ticks(1))
  show ?thesis
    unfolding s_def[symmetric] f t three_ticks(3,4) by simp
qed

section \<open>The spaceship and the camera\<close>

lemma traverse_fst_aux:
  assumes "\<And>m s. fst (f m s) = m"
  shows "fst (traverse f n s) = n" and "fst (traverse_children f ns s) = ns"
  by (induction n and ns arbitrary: s and s rule: node_list_induct)
     (simp_all add: traverse_unfold assms)

lemma traverse_click_fst: "fst (traverse (on_click_child c) n ms) = n"
  by (rule traverse_fst_aux(1))
     (simp add: on_click_child_def split: option.splits material_ref.splits)

lemma spaceship_click: "spaceship (click s) = spaceship s"
  using traverse_click_fst by (auto simp: click_def Let_def split_beta split: option.splits)

lemma camera_click: "camera (click s) = camera s"
  by (simp add: click_def Let_def split_beta split: option.splits)

lemma traverse_transform: "transform (fst (traverse f n s)) = transform n"
  by (cases n) (simp add: traverse_unfold)

lemma on_load_ship:
  "\<exists>ship. spaceship (on_load g s) = Some ship
     \<and> transform ship = (transform g)\<lparr>scale := vec_set 2 2 2, position := vec_set 0 0 0\<rparr>"
  using traverse_transform[of on_load_child]
  by (simp add: on_load_def Let_def split_beta)

lemma on_load_ship_Some [simp]: "spaceship (on_load g s) \<noteq> None"
  using on_load_ship[of g s] by auto

lemma on_load_camera: "camera (on_load g s) = camera s"
  by (simp add: on_load_def Let_def split_beta)

lemma ship_at_z0_step: "ship_at_z0 s \<Longrightarrow> ship_at_z0 (step s e)"
proof (cases e)
  case Click
  then show "ship_at_z0 s \<Longrightarrow> ship_at_z0 (step s e)"
    by (simp add: ship_at_z0_def spaceship_click)
next
  case (Loaded g)
  obtain ship where "spaceship (on_load g (s\<lparr>loader_completed := Suc (loader_completed s)\<rparr>)) = Some ship"
     "transform ship = (transform g)\<lparr>scale := vec_set 2 2 2, position := vec_set 0 0 0\<rparr>"
    using on_load_ship by blast
  then show "ship_at_z0 s \<Longrightarrow> ship_at_z0 (step s e)"
    using Loaded by (simp add: ship_at_z0_def vec_set_def)
qed (auto simp: ship_at_z0_def animate_def keydown_def resize_def on_error_def move_ship_def Let_def
      split: option.splits)

lemma ship_at_z0_run: "ship_at_z0 (run (script w h rnd) es)"
proof (induction es rule: rev_induct)
  case Nil
  show ?case by (simp add: run_Nil script_def animate_def top_level_def ship_at_z0_def Let_def)
next
  case (snoc e es)
  then show ?case by (simp add: run_snoc ship_at_z0_step)
qed

lemma zero_plus_ten: "js_add 0 10 = 10"
  by code_simp

lemma camera_animate:
  "camera (animate s) =
     (case spaceship s of
        None \<Rightarrow> camera s
      | Some ship \<Rightarrow>
          (camera s)\<lparr>position := \<lparr>vec_x = vec_x (position (transform ship)),
                                  vec_y = vec_y (position (transform ship)),
                                  vec_z = js_add (vec_z (position (transform ship))) 10\<rparr>,
                     lookAt := Some (position (transform ship))\<rparr>)"
  by (simp add: animate_def Let_def split: option.splits)

lemma spaceship_animate: "spaceship (animate s) = spaceship s"
  by (simp add: animate_def Let_def)

text \<open>The spaceship is never unloaded, and while it is absent the camera stays put.\<close>

lemma absent_step:
  assumes "spaceship (step s e) = None"
  shows "spaceship s = None"
    and "position (camera (step s e)) = position (camera s)"
    and "lookAt (camera (step s e)) = lookAt (camera s)"
proof -
  show n: "spaceship s = None"
    using assms
    by (cases e) (auto simp: spaceship_animate spaceship_click keydown_def resize_def on_error_def
        split: option.splits if_splits)
  have l: "e \<noteq> Loaded g" for g
    using assms by auto
  show "position (camera (step s e)) = position (camera s)"
    using n l by (cases e) (auto simp: camera_animate camera_click keydown_def resize_def on_error_def)
  show "lookAt (camera (step s e)) = lookAt (camera s)"
    using n l by (cases e) (auto simp: camera_animate camera_click keydown_def resize_def on_error_def)
qed

lemma absent_run:
  "spaceship (run (script w h rnd) es) = None \<Longrightarrow>
     position (camera (run (script w h rnd) es)) = vec_set 0 0 10
     \<and> lookAt (camera (run (script w h rnd) es)) = None"
proof (induction es rule: rev_induct)
  case Nil
  show ?case by (simp add: run_Nil script_def camera_animate top_level_def)
next
  case (snoc e es)
  then show ?case using absent_step[of "run (script w h rnd) es" e] by (simp add: run_snoc)
qed

lemma load_in_flight_script: "load_in_flight (script w h rnd)"
  by (simp add: load_in_flight_def script_def animate_def top_level_def Let_def)

lemma spaceship_top_level: "spaceship (top_level w h rnd) = None"
  by (simp add: top_level_def)

lemma spaceship_keydown_None: "spaceship (keydown key s) = None \<longleftrightarrow> spaceship s = None"
  by (auto simp: keydown_def split: option.splits)

text \<open>
  Claim C5. A render tick with the spaceship present puts the camera at
  \<open>(spaceship.x, spaceship.y, spaceship.z + 10)\<close> and aims it at the spaceship's position; a
  tick with the spaceship absent leaves the camera as it is. The camera starts at
  \<open>(0, 0, 10)\<close> and is there in every reachable state in which the spaceship is absent.
\<close>

theorem camera_follows_ship:
  "(spaceship s = Some ship \<longrightarrow>
      position (camera (animate s)) =
        \<lparr>vec_x = vec_x (position (transform ship)), vec_y = vec_y (position (transform ship)),
         vec_z = js_add (vec_z (position (transform ship))) 10\<rparr>
      \<and> lookAt (camera (animate s)) = Some (position (transform ship)))
   \<and> (spaceship s = None \<longrightarrow> camera (animate s) = camera s)
   \<and> position (camera (top_level w h rnd)) = vec_set 0 0 10
   \<and> (spaceship (run (script w h rnd) es) = None \<longrightarrow>
        position (camera (run (script w h rnd) es)) = vec_set 0 0 10
        \<and> lookAt (camera (run (script w h rnd) es)) = None)"
  using absent_run[of w h rnd es] by (simp add: camera_animate top_level_def)

theorem camera_follows_ship_witness:
  "spaceship (on_load two_mesh_model (top_level 800 600 zero_draws)) \<noteq> None
   \<and> position (camera (animate (on_load two_mesh_model (top_level 800 600 zero_draws))))
        = vec_set 0 0 10
   \<and> lookAt (camera (animate (on_load two_mesh_model (top_level 800 600 zero_draws))))
        = Some (vec_set 0 0 0)
   \<and> spaceship (top_level 800 600 zero_draws) = None
   \<and> camera (animate (top_level 800 600 zero_draws)) = camera (top_level 800 600 zero_draws)
   \<and> spaceship (run (script 800 600 zero_draws) [Click, AnimationFrame]) = None
   \<and> position (camera (run (script 800 600 zero_draws) [Click, AnimationFrame])) = vec_set 0 0 10"
proof -
  define s0 where "s0 = top_level 800 600 zero_draws"
  define s1 where "s1 = on_load two_mesh_model s0"
  define s2 where "s2 = run (script 800 600 zero_draws) [Click, AnimationFrame]"
  have n: "spaceship s0 = None" by (simp add: s0_def spaceship_top_level)
  obtain ship where ship: "spaceship s1 = Some ship"
    "transform ship = (transform two_mesh_model)\<lparr>scale := vec_set 2 2 2, position := vec_set 0 0 0\<rparr>"
    unfolding s1_def using on_load_ship by blast
  have n2: "spaceship s2 = None"
    by (simp add: s2_def run_def script_def spaceship_animate spaceship_click spaceship_top_level)
  note A = camera_follows_ship[of s1 ship 800 600 zero_draws "[Click, AnimationFrame]"]
  note B = camera_follows_ship[of s0 ship 800 600 zero_draws "[Click, AnimationFrame]"]
  have 1: "position (camera (animate s1)) = vec_set 0 0 10"
    "lookAt (camera (animate s1)) = Some (vec_set 0 0 0)"
    using A ship by (simp_all add: vec_set_def zero_plus_ten)
  have 2: "camera (animate s0) = camera s0" using B n by blast
  have 3: "position (camera s2) = vec_set 0 0 10" using A n2 unfolding s2_def by blast
  show ?thesis
    unfolding s0_def[symmetric] s1_def[symmetric] s2_def[symmetric]
    using n n2 1 2 3 ship(1) by simp
qed

text \<open>
  Claim C10. In every reachable state in which the spaceship is loaded its \<open>position.z\<close> is
  0, whatever keys, clicks, resizes and ticks have occurred, and a render tick then puts the
  camera at \<open>z = 10\<close> exactly.
\<close>

theorem ship_z_zero_camera_z_ten:
  assumes "spaceship (run (script w h rnd) es) = Some ship"
  shows "vec_z (position (transform ship)) = 0
    \<and> vec_z (position (camera (animate (run (script w h rnd) es)))) = 10"
  using ship_at_z0_run[of w h rnd es] assms
  by (simp add: ship_at_z0_def camera_animate zero_plus_ten)

theorem ship_z_zero_camera_z_ten_witness:
  "spaceship (run (script 800 600 zero_draws) [Loaded two_mesh_model, KeyDown ''ArrowUp'', Click]) \<noteq> None
   \<and> vec_z (position (transform (the (spaceship
        (run (script 800 600 zero_draws) [Loaded two_mesh_model, KeyDown ''ArrowUp'', Click]))))) = 0
   \<and> vec_z (position (camera (animate
        (run (script 800 600 zero_draws) [Loaded two_mesh_model, KeyDown ''ArrowUp'', Click])))) = 10"
proof -
  define s where "s = run (script 800 600 zero_draws) [Loaded two_mesh_model, KeyDown ''ArrowUp'', Click]"
  have "spaceship s \<noteq> None"
    by (simp add: s_def run_def load_in_flight_script spaceship_click spaceship_keydown_None)
  then obtain ship where ship: "spaceship s = Some ship" by blast
  from ship_z_zero_camera_z_ten[OF ship[unfolded s_def]] ship
  show ?thesis unfolding s_def[symmetric] by simp
qed

section \<open>Keyboard\<close>

text \<open>
  Claim C6. On a key-down event with the spaceship absent, the state does not change. With
  the spaceship present, ArrowUp adds 0.5 to its \<open>position.y\<close>, ArrowDown adds \<open>- 0.5\<close> to
  \<open>position.y\<close>, ArrowLeft adds \<open>- 0.5\<close> to \<open>position.x\<close>, ArrowRight adds 0.5 to
  \<open>position.x\<close>, every other key changes nothing, and no other part of the state changes.
\<close>

theorem keydown_moves_ship_only:
  "(spaceship s = None \<longrightarrow> keydown key s = s)
   \<and> (spaceship s = Some ship \<longrightarrow>
        keydown ''ArrowUp'' s =
          s\<lparr>spaceship := Some (Node
             ((transform ship)\<lparr>position := (position (transform ship))
                \<lparr>vec_y := js_add (vec_y (position (transform ship))) (1 / 2)\<rparr>\<rparr>)
             (mesh ship) (children ship))\<rparr>
      \<and> keydown ''ArrowDown'' s =
          s\<lparr>spaceship := Some (Node
             ((transform ship)\<lparr>position := (position (transform ship))
                \<lparr>vec_y := js_add (vec_y (position (transform ship))) (- (1 / 2))\<rparr>\<rparr>)
             (mesh ship) (children ship))\<rparr>
      \<and> keydown ''ArrowLeft'' s =
          s\<lparr>spaceship := Some (Node
             ((transform ship)\<lparr>position := (position (transform ship))
                \<lparr>vec_x := js_add (vec_x (position (transform ship))) (- (1 / 2))\<rparr>\<rparr>)
             (mesh ship) (children ship))\<rparr>
      \<and> keydown ''ArrowRight'' s =
          s\<lparr>spaceship := Some (Node
             ((transform ship)\<lparr>position := (position (transform ship))
                \<lparr>vec_x := js_add (vec_x (position (transform ship))) (1 / 2)\<rparr>\<rparr>)
             (mesh ship) (children ship))\<rparr>
      \<and> (key \<notin> {''ArrowUp'', ''ArrowDown'', ''ArrowLeft'', ''ArrowRight''} \<longrightarrow> keydown key s = s))"
  by (simp add: keydown_def move_ship_def js_add_def js_sub_def)

theorem keydown_moves_ship_only_witness:
  "spaceship (top_level 800 600 zero_draws) = None
   \<and> keydown ''ArrowUp'' (top_level 800 600 zero_draws) = top_level 800 600 zero_draws
   \<and> spaceship (on_load two_mesh_model (top_level 800 600 zero_draws)) \<noteq> None
   \<and> vec_y (position (transform (the (spaceship
        (keydown ''ArrowUp'' (on_load two_mesh_model (top_level 800 600 zero_draws))))))) = 1 / 2
   \<and> ''Enter'' \<notin> {''ArrowUp'', ''ArrowDown'', ''ArrowLeft'', ''ArrowRight''}
   \<and> keydown ''Enter'' (on_load two_mesh_model (top_level 800 600 zero_draws))
       = on_load two_mesh_model (top_level 800 600 zero_draws)"
proof -
  define s0 where "s0 = top_level 800 600 zero_draws"
  define s1 where "s1 = on_load two_mesh_model s0"
  have n: "spaceship s0 = None" by (simp add: s0_def spaceship_top_level)
  obtain ship where ship: "spaceship s1 = Some ship"
    "transform ship = (transform two_mesh_model)\<lparr>scale := vec_set 2 2 2, position := vec_set 0 0 0\<rparr>"
    unfolding s1_def using on_load_ship by blast
  have half: "js_add 0 (1 / 2) = 1 / 2" by code_simp
  have k: "''Enter'' \<notin> {''ArrowUp'', ''ArrowDown'', ''ArrowLeft'', ''ArrowRight''}" by simp
  note A = keydown_moves_ship_only[of s0 "''ArrowUp''" ship]
  note B = keydown_moves_ship_only[of s1 "''Enter''" ship]
  have 1: "keydown ''ArrowUp'' s0 = s0" using A n by blast
  have 2: "vec_y (position (transform (the (spaceship (keydown ''ArrowUp'' s1))))) = 1 / 2"
    using B ship by (simp add: vec_set_def half)
  have 3: "keydown ''Enter'' s1 = s1" using B ship k by blast
  show ?thesis
    unfolding s0_def[symmetric] s1_def[symmetric] using n 1 2 3 ship(1) k by simp
qed

section \<open>Loading the spaceship\<close>

lemma fresh_clone_append: "ms \<noteq> [] \<Longrightarrow> fresh_clone (ms @ xs) = fresh_clone ms"
  by (simp add: fresh_clone_def spaceshipShaderMaterial_def nth_append)

lemma on_load_child_simps:
  "on_load_child None ms = (None, ms)"
  "on_load_child (Some r) ms = (Some (ShaderMaterial (length ms)), ms @ [fresh_clone ms])"
  by (simp_all add: on_load_child_def fresh_clone_def)

lemma upt_shift: "[l..<l + a] @ [l + a..<l + a + b] = [l..<l + a + (b::nat)]"
  by (metis le_add1 upt_add_eq_append)

lemma traverse_on_load:
  "ms \<noteq> [] \<Longrightarrow>
     snd (traverse on_load_child n ms) = ms @ replicate (length (mesh_materials n)) (fresh_clone ms)
     \<and> mesh_materials (fst (traverse on_load_child n ms)) =
         map ShaderMaterial [length ms..<length ms + length (mesh_materials n)]
     \<and> strip_materials (fst (traverse on_load_child n ms)) = strip_materials n"
  "ms \<noteq> [] \<Longrightarrow>
     snd (traverse_children on_load_child ns ms) =
       ms @ replicate (length (mesh_materials_children ns)) (fresh_clone ms)
     \<and> mesh_materials_children (fst (traverse_children on_load_child ns ms)) =
         map ShaderMaterial [length ms..<length ms + length (mesh_materials_children ns)]
     \<and> strip_materials_children (fst (traverse_children on_load_child ns ms)) =
         strip_materials_children ns"
proof (induction n and ns arbitrary: ms and ms rule: node_list_induct)
  case (Node t m cs)
  show ?case
  proof (cases m)
    case None
    then show ?thesis using Node by (simp add: traverse_unfold on_load_child_simps)
  next
    case (Some r)
    have ne: "ms @ [fresh_clone ms] \<noteq> []" by simp
    have fc: "fresh_clone (ms @ [fresh_clone ms]) = fresh_clone ms"
      using Node(2) by (rule fresh_clone_append)
    define k where "k = length (mesh_materials_children cs)"
    note A = Node(1)[OF ne, unfolded fc, folded k_def]
    have u: "[length ms..<length ms + Suc k] = length ms # [Suc (length ms)..<Suc (length ms) + k]"
      by (simp add: upt_conv_Cons)
    have t: "traverse on_load_child (Node t m cs) ms =
        (Node t (Some (ShaderMaterial (length ms)))
           (fst (traverse_children on_load_child cs (ms @ [fresh_clone ms]))),
         snd (traverse_children on_load_child cs (ms @ [fresh_clone ms])))"
      by (simp add: traverse_unfold on_load_child_simps Some)
    have len: "length (mesh_materials (Node t m cs)) = Suc k" by (simp add: Some k_def)
    show ?thesis
      unfolding t len u using A by (simp add: Some replicate_app_Cons_same)
  qed
next
  case Nil
  then show ?case by simp
next
  case (Cons c cs)
  define k where "k = length (mesh_materials c)"
  define ms1 where "ms1 = ms @ replicate k (fresh_clone ms)"
  have ne: "ms1 \<noteq> []" using Cons(3) by (simp add: ms1_def)
  have fc: "fresh_clone ms1 = fresh_clone ms"
    unfolding ms1_def using Cons(3) by (rule fresh_clone_append)
  have l: "length ms1 = length ms + k" by (simp add: ms1_def)
  define j where "j = length (mesh_materials_children cs)"
  note A = Cons(1)[OF Cons(3), folded k_def, folded ms1_def]
  note B = Cons(2)[OF ne, unfolded fc l, folded j_def]
  have t: "traverse_children on_load_child (c # cs) ms =
      (fst (traverse on_load_child c ms) # fst (traverse_children on_load_child cs ms1),
       snd (traverse_children on_load_child cs ms1))"
    using A by (simp add: traverse_unfold)
  have len: "length (mesh_materials_children (c # cs)) = k + j" by (simp add: k_def j_def)
  have r: "ms1 @ replicate j (fresh_clone ms) = ms @ replicate (k + j) (fresh_clone ms)"
    by (simp add: ms1_def replicate_add)
  have u: "map ShaderMaterial [length ms..<length ms + k] @
      map ShaderMaterial [length ms + k..<length ms + k + j] =
      map ShaderMaterial [length ms..<length ms + (k + j)]"
    using upt_shift[of "length ms" k j] by (simp add: map_append[symmetric] add.assoc del: map_append)
  show ?case
    unfolding t len using A B r u by simp
qed

lemma loader_requests_step: "loader_requests (step s e) = loader_requests s"
  by (cases e) (simp_all add: handler_defs Let_def split: option.splits prod.splits)

lemma loader_requests_run:
  "loader_requests (run (script w h rnd) es) = [''models/spaceship.gltf'']"
proof (induction es rule: rev_induct)
  case Nil
  show ?case by (simp add: run_Nil script_def animate_def top_level_def Let_def)
next
  case (snoc e es)
  then show ?case by (simp add: run_snoc loader_requests_step)
qed

lemma scene_click: "scene (click s) = scene s"
  by (simp add: click_def Let_def split_beta split: option.splits)

lemma loader_completed_click: "loader_completed (click s) = loader_completed s"
  by (simp add: click_def Let_def split_beta split: option.splits)

lemma loader_on_load:
  "loader_completed (on_load g s) = loader_completed s"
  "loader_requests (on_load g s) = loader_requests s"
  "scene (on_load g s) = scene s @ [Spaceship]"
  "console (on_load g s) = console s @ [Log ''Spaceship loaded and added to the scene'']"
  by (simp_all add: on_load_def Let_def split_beta)

lemma loader_requests_click: "loader_requests (click s) = loader_requests s"
  using loader_requests_step[of s Click] by simp

lemma scene_step:
  "scene (step s e) = (if (\<exists>g. e = Loaded g) then scene s @ [Spaceship] else scene s)"
  by (cases e)
     (simp_all add: animate_def keydown_def resize_def on_error_def scene_click loader_on_load
        Let_def split: option.splits)

lemma loader_completed_step:
  "loader_completed (step s e) =
     (if is_completion e then Suc (loader_completed s) else loader_completed s)"
  by (cases e)
     (simp_all add: animate_def keydown_def resize_def on_error_def loader_completed_click
        loader_on_load Let_def split: option.splits)

lemma loader_completed_run:
  "loader_completed (run (script w h rnd) es) = length (filter is_completion es)"
proof (induction es rule: rev_induct)
  case Nil
  show ?case by (simp add: run_Nil script_def animate_def top_level_def Let_def)
next
  case (snoc e es)
  then show ?case by (simp add: run_snoc loader_completed_step)
qed

lemma spaceship_step_absent:
  assumes "spaceship s = None" "\<not> is_completion e"
  shows "spaceship (step s e) = None"
  using assms
  by (cases e)
     (simp_all add: spaceship_animate keydown_def resize_def on_error_def spaceship_click)

lemma script_not_loaded:
  "spaceship (script w h rnd) = None" "Spaceship \<notin> set (scene (script w h rnd))"
  by (auto simp: script_def animate_def top_level_def Let_def)

lemma not_loaded_step:
  assumes "length (loader_requests s) = 1" "load_in_flight s \<longrightarrow> not_loaded s"
    "load_in_flight (step s e)"
  shows "not_loaded (step s e)"
proof -
  have c: "loader_completed (step s e) = 0"
    using assms(1,3) by (simp add: load_in_flight_def loader_requests_step)
  then have f: "load_in_flight s" "\<not> is_completion e"
    using assms(1) by (auto simp: loader_completed_step load_in_flight_def split: if_splits)
  then have n: "not_loaded s" using assms(2) by simp
  have "\<not> (\<exists>g. e = Loaded g)" using f(2) by auto
  then show ?thesis
    using n spaceship_step_absent[OF _ f(2), of s] by (simp add: not_loaded_def scene_step)
qed

lemma not_loaded_run:
  "load_in_flight (run (script w h rnd) es) \<Longrightarrow> not_loaded (run (script w h rnd) es)"
proof (induction es rule: rev_induct)
  case Nil
  show ?case by (simp add: run_Nil not_loaded_def script_not_loaded)
next
  case (snoc e es)
  have l: "length (loader_requests (run (script w h rnd) es)) = 1"
    by (simp add: loader_requests_run)
  show ?case
    using not_loaded_step[OF l, of e] snoc by (auto simp: run_snoc)
qed

text \<open>
  As long as no loader callback runs, an absent spaceship stays absent and the camera stays
  put.
\<close>

lemma failed_step:
  assumes "\<not> is_completion e" "not_loaded s"
  shows "not_loaded (step s e)"
    "loader_completed (step s e) = loader_completed s"
    "position (camera (step s e)) = position (camera s)"
    "lookAt (camera (step s e)) = lookAt (camera s)"
proof -
  have n: "spaceship (step s e) = None"
    using assms spaceship_step_absent[of s e] by (simp add: not_loaded_def)
  have "\<not> (\<exists>g. e = Loaded g)" using assms(1) by auto
  then show "not_loaded (step s e)"
    using assms n by (simp add: not_loaded_def scene_step)
  show "loader_completed (step s e) = loader_completed s"
    using assms(1) by (simp add: loader_completed_step)
  show "position (camera (step s e)) = position (camera s)"
    "lookAt (camera (step s e)) = lookAt (camera s)"
    using absent_step(2,3)[OF n] .
qed

lemma failed_run:
  assumes "filter is_completion es = []" "not_loaded s"
  shows "not_loaded (run s es)
    \<and> loader_completed (run s es) = loader_completed s
    \<and> position (camera (run s es)) = position (camera s)
    \<and> lookAt (camera (run s es)) = lookAt (camera s)"
  using assms(1)
proof (induction es rule: rev_induct)
  case Nil
  show ?case using assms(2) by (simp add: run_Nil)
next
  case (snoc e es)
  then have e: "\<not> is_completion e" "filter is_completion es = []"
    by (auto split: if_splits)
  from snoc(1)[OF e(2)] failed_step[OF e(1), of "run s es"] show ?case
    by (simp add: run_snoc)
qed

lemma mesh_materials_root: "mesh_materials (Node t (mesh g) (children g)) = mesh_materials g"
  by (cases g) simp

lemma on_load_result:
  assumes "materials s \<noteq> []"
  shows "\<exists>ship. spaceship (on_load g s) = Some ship
      \<and> transform ship = (transform g)\<lparr>scale := vec_set 2 2 2, position := vec_set 0 0 0\<rparr>
      \<and> strip_materials ship = strip_materials (Node (transform ship) (mesh g) (children g))
      \<and> mesh_materials ship =
          map ShaderMaterial [length (materials s)..<length (materials s) + length (mesh_materials g)]"
    and "materials (on_load g s) =
      materials s @ replicate (length (mesh_materials g)) (fresh_clone (materials s))"
proof -
  define g0 where
    "g0 = Node ((transform g)\<lparr>scale := vec_set 2 2 2, position := vec_set 0 0 0\<rparr>) (mesh g) (children g)"
  have mm: "mesh_materials g0 = mesh_materials g"
    unfolding g0_def by (rule mesh_materials_root)
  have tr: "transform g0 = (transform g)\<lparr>scale := vec_set 2 2 2, position := vec_set 0 0 0\<rparr>"
    by (simp add: g0_def)
  note T = traverse_on_load(1)[OF assms, of g0, unfolded mm]
  have ol: "spaceship (on_load g s) = Some (fst (traverse on_load_child g0 (materials s)))"
    "materials (on_load g s) = snd (traverse on_load_child g0 (materials s))"
    by (simp_all add: on_load_def Let_def split_beta g0_def)
  have "transform (fst (traverse on_load_child g0 (materials s))) = transform g0"
    by (rule traverse_transform)
  then show "\<exists>ship. spaceship (on_load g s) = Some ship
      \<and> transform ship = (transform g)\<lparr>scale := vec_set 2 2 2, position := vec_set 0 0 0\<rparr>
      \<and> strip_materials ship = strip_materials (Node (transform ship) (mesh g) (children g))
      \<and> mesh_materials ship =
          map ShaderMaterial [length (materials s)..<length (materials s) + length (mesh_materials g)]"
    using T unfolding ol tr by (simp add: g0_def)
  show "materials (on_load g s) =
      materials s @ replicate (length (mesh_materials g)) (fresh_clone (materials s))"
    using T unfolding ol by simp
qed

lemma materials_run_nonempty: "materials (run (script w h rnd) es) \<noteq> []"
  using frames_run by blast

lemma length_materials_animate: "length (materials (animate s)) = length (materials s)"
  by (simp add: animate_def Let_def)

lemma materials_script: "length (materials (script w h rnd)) = 1"
  by (simp add: script_def length_materials_animate) (simp add: top_level_def)

lemma click_absent:
  "spaceship s = None \<Longrightarrow> click s = s\<lparr>currentColorIndex := (currentColorIndex s + 1) mod 3\<rparr>"
  by (simp add: click_def Let_def colors_def)

section \<open>Clicks and the palette\<close>

lemma paint_mesh_simps:
  "paint_mesh c ms (ShaderMaterial a) = ms[a := paint c (ms ! a)]"
  "paint_mesh c ms OtherMaterial = ms"
  by (simp_all add: paint_mesh_def on_click_child_def paint_def)

lemma traverse_click_snd:
  "snd (traverse (on_click_child c) n ms) = foldl (paint_mesh c) ms (mesh_materials n)"
  "snd (traverse_children (on_click_child c) ns ms) =
     foldl (paint_mesh c) ms (mesh_materials_children ns)"
proof (induction n and ns arbitrary: ms and ms rule: node_list_induct)
  case (Node t m cs)
  show ?case
  proof (cases m)
    case None
    then show ?thesis using Node by (simp add: traverse_unfold on_click_child_def)
  next
    case (Some r)
    then show ?thesis using Node by (simp add: traverse_unfold paint_mesh_def)
  qed
next
  case Nil
  show ?case by simp
next
  case (Cons c' cs)
  then show ?case by (simp add: traverse_unfold)
qed

lemma paint_range:
  assumes "b \<le> length ms"
  shows "length (foldl (paint_mesh c) ms (map ShaderMaterial [a..<b])) = length ms
    \<and> (\<forall>i < length ms. foldl (paint_mesh c) ms (map ShaderMaterial [a..<b]) ! i =
          (if a \<le> i \<and> i < b then paint c (ms ! i) else ms ! i))"
  using assms
proof (induction b)
  case 0
  then show ?case by simp
next
  case (Suc b)
  show ?case
  proof (cases "a \<le> b")
    case True
    then show ?thesis using Suc
      by (auto simp: paint_mesh_simps nth_list_update less_Suc_eq)
  next
    case False
    then show ?thesis by auto
  qed
qed

lemma mesh_materials_move_ship: "mesh_materials (move_ship f ship) = mesh_materials ship"
  by (cases ship) (simp add: move_ship_def)

lemma length_materials_click: "length (materials (click s)) = length (materials s)"
  using click_times[of s] by (rule map_eq_imp_length_eq)

lemma store_ok_nonempty: "store_ok s \<Longrightarrow> materials s \<noteq> []"
  by (auto simp: store_ok_def split: option.splits)

lemma store_ok_step:
  assumes "store_ok s"
  shows "store_ok (step s e)"
proof (cases e)
  case AnimationFrame
  then show ?thesis using assms
    by (auto simp: store_ok_def spaceship_animate length_materials_animate split: option.splits)
next
  case (KeyDown k)
  then show ?thesis using assms
    by (auto simp: store_ok_def keydown_def mesh_materials_move_ship split: option.splits)
next
  case Click
  then show ?thesis using assms
    by (auto simp: store_ok_def spaceship_click length_materials_click split: option.splits)
next
  case (Resize w h)
  then show ?thesis using assms
    by (auto simp: store_ok_def resize_def split: option.splits)
next
  case (Loaded g)
  define s1 where "s1 = s\<lparr>loader_completed := Suc (loader_completed s)\<rparr>"
  have ne: "materials s1 \<noteq> []" using store_ok_nonempty[OF assms] by (simp add: s1_def)
  then have l: "0 < length (materials s1)" by simp
  from on_load_result[OF ne, of g] show ?thesis
    using Loaded l by (auto simp: store_ok_def s1_def[symmetric])
next
  case (LoadFailed err)
  then show ?thesis using assms by (auto simp: store_ok_def on_error_def split: option.splits)
qed

lemma store_ok_run: "store_ok (run (script w h rnd) es)"
proof (induction es rule: rev_induct)
  case Nil
  show ?case by (simp add: run_Nil store_ok_def script_not_loaded materials_script)
next
  case (snoc e es)
  from store_ok_step[OF snoc] show ?case by (simp add: run_snoc)
qed

text \<open>
  A click with the spaceship loaded paints the materials of its meshes and leaves the
  shader material alone.
\<close>

lemma click_loaded:
  assumes "store_ok s" "spaceship s = Some ship"
  shows "length (materials (click s)) = length (materials s)"
    and "materials (click s) ! 0 = materials s ! 0"
    and "\<forall>i < length (materials s).
           length (materials s) - length (mesh_materials ship) \<le> i \<longrightarrow>
           materials (click s) ! i =
             paint (colors ! ((currentColorIndex s + 1) mod 3)) (materials s ! i)"
proof -
  define c where "c = colors ! ((currentColorIndex s + 1) mod 3)"
  define a where "a = length (materials s) - length (mesh_materials ship)"
  have mm: "mesh_materials ship = map ShaderMaterial [a..<length (materials s)]"
    and lt: "length (mesh_materials ship) < length (materials s)"
    using assms by (simp_all add: store_ok_def a_def)
  have a0: "0 < a" unfolding a_def using lt by linarith
  have ne: "0 < length (materials s)" using lt by linarith
  have m: "materials (click s) =
      foldl (paint_mesh c) (materials s) (map ShaderMaterial [a..<length (materials s)])"
    using assms(2)
    by (simp add: click_def Let_def split_beta traverse_click_snd mm[symmetric] c_def colors_def)
  note P = paint_range[OF order_refl, of c "materials s" a, folded m]
  show "length (materials (click s)) = length (materials s)" using P by simp
  show "materials (click s) ! 0 = materials s ! 0" using P ne a0 by simp
  show "\<forall>i < length (materials s).
           length (materials s) - length (mesh_materials ship) \<le> i \<longrightarrow>
           materials (click s) ! i =
             paint (colors ! ((currentColorIndex s + 1) mod 3)) (materials s ! i)"
    using P by (auto simp: c_def a_def)
qed

lemma currentColorIndex_step:
  "currentColorIndex (step s e) =
     (if e = Click then (currentColorIndex s + 1) mod 3 else currentColorIndex s)"
  by (cases e)
     (simp_all add: handler_defs colors_def Let_def split_beta split: option.splits)

lemma currentColorIndex_run:
  "currentColorIndex (run (script w h rnd) es) = count_list es Click mod 3"
proof (induction es rule: rev_induct)
  case Nil
  show ?case by (simp add: run_Nil script_def animate_def top_level_def Let_def)
next
  case (snoc e es)
  then show ?case by (simp add: run_snoc currentColorIndex_step mod_Suc_eq)
qed

lemma mesh_colors_drop:
  assumes "store_ok s" "spaceship s = Some ship"
  shows "mesh_colors s =
      map (\<lambda>m. Some (color m))
        (drop (length (materials s) - length (mesh_materials ship)) (materials s))"
proof -
  define a where "a = length (materials s) - length (mesh_materials ship)"
  have mm: "mesh_materials ship = map ShaderMaterial [a..<length (materials s)]"
    and lt: "length (mesh_materials ship) < length (materials s)"
    using assms by (simp_all add: store_ok_def a_def)
  have "mesh_colors s = map (\<lambda>m. Some (color m)) (drop a (materials s))"
    unfolding mesh_colors_def assms(2) option.case
    by (subst mm, rule nth_equalityI) (simp_all add: mesh_color_def)
  then show ?thesis by (simp add: a_def)
qed

lemma template_color_step:
  assumes "store_ok s" "color (materials s ! 0) = c"
  shows "color (materials (step s e) ! 0) = c"
proof (cases e)
  case AnimationFrame
  then show ?thesis using assms store_ok_nonempty[OF assms(1)]
    by (simp add: animate_def Let_def spaceshipShaderMaterial_def)
next
  case (KeyDown k)
  then show ?thesis using assms(2) by (simp add: keydown_def split: option.splits)
next
  case Click
  show ?thesis
  proof (cases "spaceship s")
    case None
    then show ?thesis using Click assms(2) by (simp add: click_absent)
  next
    case (Some ship)
    then show ?thesis using Click assms(2) click_loaded(2)[OF assms(1) Some] by simp
  qed
next
  case (Resize w h)
  then show ?thesis using assms(2) by (simp add: resize_def)
next
  case (Loaded g)
  define s1 where "s1 = s\<lparr>loader_completed := Suc (loader_completed s)\<rparr>"
  have ne: "materials s1 \<noteq> []" using store_ok_nonempty[OF assms(1)] by (simp add: s1_def)
  from on_load_result(2)[OF ne, of g] show ?thesis
    using Loaded ne assms(2) by (simp add: s1_def[symmetric] nth_append) (simp add: s1_def)
next
  case (LoadFailed err)
  then show ?thesis using assms(2) by (simp add: on_error_def)
qed

lemma in_flight_absent:
  "load_in_flight (run (script w h rnd) es) \<longrightarrow> spaceship (run (script w h rnd) es) = None"
  using not_loaded_run[of w h rnd es] by (simp add: not_loaded_def)

lemma template_color_run:
  "color (materials (run (script w h rnd) es) ! 0) = Color 0xc0c0c0"
proof (induction es rule: rev_induct)
  case Nil
  show ?case
    by (simp add: run_Nil script_def animate_def top_level_def Let_def spaceshipShaderMaterial_def)
next
  case (snoc e es)
  from template_color_step[OF store_ok_run snoc] show ?case
    by (simp add: run_snoc)
qed

lemma loaded_colors:
  assumes "s = run (script w h rnd) es"
  shows "mesh_colors (step s (Loaded g)) =
      replicate (length (mesh_materials g)) (Some (Color 0xc0c0c0))"
proof -
  define s1 where "s1 = s\<lparr>loader_completed := Suc (loader_completed s)\<rparr>"
  have ok: "store_ok s" using assms store_ok_run by auto
  have ne: "materials s1 \<noteq> []" using store_ok_nonempty[OF ok] by (auto simp: s1_def)
  have st: "step s (Loaded g) = on_load g s1" by (simp add: s1_def)
  from store_ok_step[OF ok] have ok': "store_ok (step s (Loaded g))" .
  obtain ship where ship: "spaceship (on_load g s1) = Some ship"
    "mesh_materials ship = map ShaderMaterial
       [length (materials s1)..<length (materials s1) + length (mesh_materials g)]"
    using on_load_result(1)[OF ne, of g] by blast
  have k: "length (mesh_materials ship) = length (mesh_materials g)"
    unfolding ship(2) by simp
  have fc: "color (fresh_clone (materials s)) = Color 0xc0c0c0"
    using template_color_run[of w h rnd es] assms(1)
    by (simp add: fresh_clone_def clone_def spaceshipShaderMaterial_def)
  have m: "materials (on_load g s1) =
      materials s @ replicate (length (mesh_materials g)) (fresh_clone (materials s))"
    using on_load_result(2)[OF ne, of g] by (simp add: s1_def)
  have "drop (length (materials (on_load g s1)) - length (mesh_materials ship))
        (materials (on_load g s1)) =
      replicate (length (mesh_materials g)) (fresh_clone (materials s))"
    unfolding m k by simp
  then show ?thesis
    unfolding st using mesh_colors_drop[OF ok'[unfolded st] ship(1)] fc by simp
qed

lemma clicked_colors:
  assumes "store_ok s" "spaceship s = Some ship"
  shows "mesh_colors (click s) =
      replicate (length (mesh_materials ship)) (Some (colors ! currentColorIndex (click s)))"
proof -
  define a where "a = length (materials s) - length (mesh_materials ship)"
  have lt: "length (mesh_materials ship) < length (materials s)"
    using assms by (simp add: store_ok_def)
  have ok': "store_ok (click s)" using store_ok_step[OF assms(1), of Click] by simp
  have sh: "spaceship (click s) = Some ship" using assms(2) by (simp add: spaceship_click)
  have idx: "currentColorIndex (click s) = (currentColorIndex s + 1) mod 3"
    using currentColorIndex_step[of s Click] by simp
  note C = click_loaded[OF assms, folded a_def]
  have "map (\<lambda>m. Some (color m)) (drop a (materials (click s))) =
      replicate (length (materials s) - a) (Some (colors ! ((currentColorIndex s + 1) mod 3)))"
    using C by (intro nth_equalityI) (simp_all add: paint_def)
  moreover have "length (materials s) - a = length (mesh_materials ship)"
    using lt by (simp add: a_def)
  ultimately show ?thesis
    using mesh_colors_drop[OF ok' sh] C(1) by (simp add: idx a_def)
qed

lemma same_color_map:
  "\<forall>m \<in> set l. color m = c \<Longrightarrow> map (\<lambda>m. Some (color m)) l = replicate (length l) (Some c)"
  by (induction l) auto

lemma colors_animate: "map color (materials (animate s)) = map color (materials s)"
proof -
  have "(map color ms)[a := color (ms ! a)] = map color ms" for ms :: "shader_material list" and a
    using map_update[of color ms a "ms ! a"] by simp
  then show ?thesis by (simp add: animate_def Let_def map_update)
qed

lemma unclicked_step:
  assumes "e \<noteq> Click" "materials s \<noteq> []"
    "\<forall>m \<in> set (materials s). color m = c"
  shows "\<forall>m \<in> set (materials (step s e)). color m = c"
proof (cases e)
  case AnimationFrame
  have "set (map color (materials (animate s))) = set (map color (materials s))"
    by (simp only: colors_animate)
  then show ?thesis using assms(3) AnimationFrame by (simp del: set_map) (auto simp: image_iff)
next
  case (Loaded g)
  define s1 where "s1 = s\<lparr>loader_completed := Suc (loader_completed s)\<rparr>"
  have ne: "materials s1 \<noteq> []" using assms(2) by (simp add: s1_def)
  have "color (fresh_clone (materials s)) = c"
    using assms(2,3) by (simp add: fresh_clone_def clone_def spaceshipShaderMaterial_def)
  then show ?thesis
    using Loaded assms(3) on_load_result(2)[OF ne, of g]
    by (auto simp: s1_def[symmetric]) (auto simp: s1_def)
qed (use assms in \<open>auto simp: keydown_def resize_def on_error_def split: option.splits\<close>)

lemma unclicked_run:
  "count_list es Click = 0 \<Longrightarrow>
     \<forall>m \<in> set (materials (run (script w h rnd) es)). color m = Color 0xc0c0c0"
proof (induction es rule: rev_induct)
  case Nil
  have "map color (materials (script w h rnd)) = [Color 0xc0c0c0]"
    by (simp add: script_def colors_animate) (simp add: top_level_def)
  then have "set (map color (materials (script w h rnd))) = {Color 0xc0c0c0}" by simp
  then show ?case by (simp add: run_Nil del: set_map) (auto simp: image_iff)
next
  case (snoc e es)
  have e: "e \<noteq> Click" "count_list es Click = 0"
    using snoc(2) by (auto split: if_splits)
  from unclicked_step[OF e(1) materials_run_nonempty snoc(1)[OF e(2)]]
  show ?case by (simp add: run_snoc)
qed

text \<open>
  Claim C4. In every reachable state the palette index is the number of clicks so far
  modulo 3, over the palette silver \<open>0xc0c0c0\<close>, ash \<open>0xb0b0b0\<close>, white \<open>0xffffff\<close>
  in this order; three more clicks bring the index back, and a click count divisible by 3
  selects silver. With no click so far and the spaceship loaded, the colour uniform of
  every mesh is silver. A click with the spaceship loaded sets the colour uniform of every
  mesh to the palette colour at the new index.
\<close>

theorem palette_index_is_click_count:
  assumes "s = run (script w h rnd) es"
  shows "currentColorIndex s = count_list es Click mod 3
    \<and> colors = [Color 0xc0c0c0, Color 0xb0b0b0, Color 0xffffff]
    \<and> currentColorIndex (click s) = (count_list es Click + 1) mod 3
    \<and> currentColorIndex (click (click (click s))) = currentColorIndex s
    \<and> (count_list es Click mod 3 = 0 \<longrightarrow> colors ! currentColorIndex s = Color 0xc0c0c0)
    \<and> (count_list es Click = 0 \<and> spaceship s = Some ship \<longrightarrow>
         mesh_colors s = replicate (length (mesh_materials ship)) (Some (Color 0xc0c0c0)))
    \<and> (spaceship s = Some ship \<longrightarrow>
         mesh_colors (click s) =
           replicate (length (mesh_materials ship)) (Some (colors ! currentColorIndex (click s))))"
proof -
  have ok: "store_ok s" using assms store_ok_run by simp
  have idx: "currentColorIndex s = count_list es Click mod 3"
    using assms currentColorIndex_run by simp
  have ck: "currentColorIndex (click t) = (currentColorIndex t + 1) mod 3" for t
    using currentColorIndex_step[of t Click] by simp
  have c1: "currentColorIndex (click s) = (count_list es Click + 1) mod 3"
    by (simp add: ck idx mod_Suc_eq)
  have c3: "currentColorIndex (click (click (click s))) = currentColorIndex s"
    unfolding ck idx by presburger
  have silver: "count_list es Click mod 3 = 0 \<longrightarrow> colors ! currentColorIndex s = Color 0xc0c0c0"
    by (simp add: idx colors_def)
  have unclicked: "mesh_colors s = replicate (length (mesh_materials ship)) (Some (Color 0xc0c0c0))"
    if "count_list es Click = 0" "spaceship s = Some ship"
  proof -
    define a where "a = length (materials s) - length (mesh_materials ship)"
    have lt: "length (mesh_materials ship) < length (materials s)"
      using ok that(2) by (simp add: store_ok_def)
    have "\<forall>m \<in> set (drop a (materials s)). color m = Color 0xc0c0c0"
      using unclicked_run[OF that(1), of w h rnd] assms by (auto dest: in_set_dropD)
    then have "map (\<lambda>m. Some (color m)) (drop a (materials s)) =
        replicate (length (drop a (materials s))) (Some (Color 0xc0c0c0))"
      by (rule same_color_map)
    moreover have "length (drop a (materials s)) = length (mesh_materials ship)"
      using lt by (simp add: a_def)
    ultimately show ?thesis using mesh_colors_drop[OF ok that(2)] by (simp add: a_def)
  qed
  show ?thesis
    using idx c1 c3 silver unclicked clicked_colors[OF ok] by (simp add: colors_def)
qed

lemma load_in_flight_clicks:
  "set es \<subseteq> {Click} \<Longrightarrow> load_in_flight (run (script w h rnd) es)"
proof (induction es rule: rev_induct)
  case Nil
  show ?case by (simp add: run_Nil load_in_flight_script)
next
  case (snoc e es)
  then show ?case
    by (simp add: run_snoc load_in_flight_def loader_completed_click loader_requests_click)
qed

lemma loaded_ship:
  assumes "s = run (script w h rnd) es" "load_in_flight s"
  shows "\<exists>ship. spaceship (step s (Loaded g)) = Some ship
    \<and> length (mesh_materials ship) = length (mesh_materials g)"
proof -
  define s1 where "s1 = s\<lparr>loader_completed := Suc (loader_completed s)\<rparr>"
  have ne: "materials s1 \<noteq> []" using assms(1) materials_run_nonempty by (simp add: s1_def)
  have st: "step s (Loaded g) = on_load g s1" by (simp add: s1_def)
  from on_load_result(1)[OF ne, of g] show ?thesis unfolding st by auto
qed

theorem palette_index_is_click_count_witness:
  "count_list [Loaded two_mesh_model, AnimationFrame] Click mod 3 = 0
   \<and> count_list [Loaded two_mesh_model, AnimationFrame] Click = 0
   \<and> spaceship (run (script 800 600 zero_draws) [Loaded two_mesh_model, AnimationFrame]) \<noteq> None
   \<and> colors ! currentColorIndex (run (script 800 600 zero_draws) [Loaded two_mesh_model, AnimationFrame])
       = Color 0xc0c0c0
   \<and> mesh_colors (run (script 800 600 zero_draws) [Loaded two_mesh_model, AnimationFrame])
       = [Some (Color 0xc0c0c0), Some (Color 0xc0c0c0)]
   \<and> mesh_colors (click (run (script 800 600 zero_draws) [Loaded two_mesh_model, AnimationFrame]))
       = [Some (Color 0xb0b0b0), Some (Color 0xb0b0b0)]"
proof -
  define s where "s = run (script 800 600 zero_draws) [Loaded two_mesh_model, AnimationFrame]"
  have c: "count_list [Loaded two_mesh_model, AnimationFrame] Click = 0" by simp
  obtain ship where ship0: "spaceship (step (run (script 800 600 zero_draws) []) (Loaded two_mesh_model)) = Some ship"
    "length (mesh_materials ship) = length (mesh_materials two_mesh_model)"
    using loaded_ship[OF refl, of 800 600 zero_draws "[]" two_mesh_model] load_in_flight_clicks[of "[]"]
    by auto
  have ship: "spaceship s = Some ship"
    using ship0(1) by (simp add: s_def run_def spaceship_animate)
  have k: "length (mesh_materials ship) = 2" using ship0(2) by (simp add: two_mesh_model_def)
  note T = palette_index_is_click_count[OF s_def, of ship]
  have i0: "currentColorIndex s = 0" using T c by simp
  have i1: "currentColorIndex (click s) = 1" using T c by simp
  have 1: "colors ! currentColorIndex s = Color 0xc0c0c0" using i0 by (simp add: colors_def)
  have 2: "mesh_colors s = [Some (Color 0xc0c0c0), Some (Color 0xc0c0c0)]"
    using T c ship k by (simp add: numeral_2_eq_2)
  have 3: "mesh_colors (click s) = [Some (Color 0xb0b0b0), Some (Color 0xb0b0b0)]"
    using T ship k i1 by (simp add: numeral_2_eq_2 colors_def)
  show ?thesis
    unfolding s_def[symmetric] using c ship 1 2 3 by simp
qed

text \<open>
  Claim C7, as amended. While the load is in flight the spaceship is absent, and each click
  advances the palette index modulo 3 and changes nothing else. When the load then
  succeeds the index is kept, and the colour uniform of every mesh is silver \<open>0xc0c0c0\<close>
  whatever the index: the meshes get clones of the shader material, whose colour no click
  has touched. The next click sets every mesh to the palette colour after the kept index.
\<close>

theorem clicks_before_load:
  assumes "s = run (script w h rnd) es" "load_in_flight s"
  shows "spaceship s = None
    \<and> currentColorIndex s = count_list es Click mod 3
    \<and> click s = s\<lparr>currentColorIndex := (currentColorIndex s + 1) mod 3\<rparr>
    \<and> mesh_colors (step s (Loaded g)) =
        replicate (length (mesh_materials g)) (Some (Color 0xc0c0c0))
    \<and> currentColorIndex (step s (Loaded g)) = count_list es Click mod 3
    \<and> mesh_colors (click (step s (Loaded g))) =
        replicate (length (mesh_materials g)) (Some (colors ! ((count_list es Click + 1) mod 3)))"
proof -
  define s2 where "s2 = step s (Loaded g)"
  have n: "spaceship s = None" using assms in_flight_absent by simp
  have idx: "currentColorIndex s = count_list es Click mod 3"
    using assms(1) currentColorIndex_run by simp
  have idx': "currentColorIndex s2 = count_list es Click mod 3"
    unfolding s2_def using idx by (simp only: currentColorIndex_step) simp
  have ok: "store_ok s" using assms(1) store_ok_run by simp
  from store_ok_step[OF ok] have ok': "store_ok s2" unfolding s2_def .
  obtain ship where ship: "spaceship s2 = Some ship"
    "length (mesh_materials ship) = length (mesh_materials g)"
    unfolding s2_def using loaded_ship[OF assms] by blast
  have "currentColorIndex (click s2) = (currentColorIndex s2 + 1) mod 3"
    using currentColorIndex_step[of s2 Click] by simp
  then have ck: "currentColorIndex (click s2) = (count_list es Click + 1) mod 3"
    unfolding idx' by presburger
  have after: "mesh_colors (click s2) =
        replicate (length (mesh_materials g)) (Some (colors ! ((count_list es Click + 1) mod 3)))"
    using clicked_colors[OF ok' ship(1)] unfolding ck ship(2) .
  have loaded: "mesh_colors s2 = replicate (length (mesh_materials g)) (Some (Color 0xc0c0c0))"
    unfolding s2_def by (rule loaded_colors[OF assms(1)])
  show ?thesis
    unfolding s2_def[symmetric] using n idx idx' after loaded click_absent[OF n] by simp
qed

theorem clicks_before_load_witness:
  "load_in_flight (run (script 800 600 zero_draws) [Click])
   \<and> currentColorIndex (run (script 800 600 zero_draws) [Click]) = 1
   \<and> mesh_colors (step (run (script 800 600 zero_draws) [Click]) (Loaded two_mesh_model))
       = [Some (Color 0xc0c0c0), Some (Color 0xc0c0c0)]
   \<and> currentColorIndex (step (run (script 800 600 zero_draws) [Click]) (Loaded two_mesh_model)) = 1
   \<and> mesh_colors (click (step (run (script 800 600 zero_draws) [Click]) (Loaded two_mesh_model)))
       = [Some (Color 0xffffff), Some (Color 0xffffff)]"
proof -
  define s where "s = run (script 800 600 zero_draws) [Click]"
  have fl: "load_in_flight s" unfolding s_def by (rule load_in_flight_clicks) simp
  have k: "length (mesh_materials two_mesh_model) = 2" by (simp add: two_mesh_model_def)
  note T = clicks_before_load[OF s_def fl, of two_mesh_model]
  show ?thesis
    unfolding s_def[symmetric] using T fl
    by (simp add: k numeral_2_eq_2 colors_def del: step.simps)
qed

text \<open>
  Claim C7 as stated fails: after one click and then a successful load the palette index
  is 1 (ash), and the colour uniform of both meshes of the model is silver.
\<close>

theorem color_after_early_click_counterexample:
  "currentColorIndex (run (script 800 600 zero_draws) [Click, Loaded two_mesh_model]) = 1
   \<and> colors ! 1 = Color 0xb0b0b0
   \<and> mesh_colors (run (script 800 600 zero_draws) [Click, Loaded two_mesh_model])
       = [Some (Color 0xc0c0c0), Some (Color 0xc0c0c0)]"
proof -
  define s where "s = run (script 800 600 zero_draws) [Click]"
  have fl: "load_in_flight s" unfolding s_def by (rule load_in_flight_clicks) simp
  have r: "run (script 800 600 zero_draws) [Click, Loaded two_mesh_model] = step s (Loaded two_mesh_model)"
    by (simp add: s_def run_def)
  have k: "length (mesh_materials two_mesh_model) = 2" by (simp add: two_mesh_model_def)
  have i: "currentColorIndex (run (script 800 600 zero_draws) [Click, Loaded two_mesh_model]) = 1"
    by (simp only: currentColorIndex_run) simp
  show ?thesis
    unfolding i unfolding r using loaded_colors[OF s_def, of two_mesh_model]
    by (simp add: k numeral_2_eq_2 colors_def del: step.simps)
qed

section \<open>The load, once\<close>

lemma tl_materials_animate: "tl (materials (animate s)) = tl (materials s)"
  by (cases "materials s") (simp_all add: animate_def Let_def spaceshipShaderMaterial_def)

text \<open>
  Claim C8. The script requests the model once and no handler requests it again; the
  request is in flight until the first loader callback runs, and until then there is no
  spaceship. If the success callback then runs, the loaded subtree keeps its shape, is
  scaled by 2 and placed at the origin, is added to the scene and becomes the spaceship;
  every mesh of it refers to a material object of its own, freshly allocated in the store
  (the addresses are distinct and none is the shader material itself) and holding a clone
  of the shader material. In every reachable state a tick changes no material but the
  shader material itself, and a click does not change the shader material. If the error
  callback runs instead, the error is written to the console and, whatever events follow
  under the contract of the loader (no further callback of it), the spaceship stays
  absent, the camera stays where it was, a render tick leaves the camera alone and a click
  leaves every material alone.
\<close>

theorem spaceship_load_once:
  assumes "s = run (script w h rnd) es"
  shows "loader_requests s = [''models/spaceship.gltf'']
    \<and> load_in_flight s = (filter is_completion es = [])
    \<and> tl (materials (animate s)) = tl (materials s)
    \<and> materials (click s) ! spaceshipShaderMaterial = materials s ! spaceshipShaderMaterial
    \<and> (load_in_flight s \<longrightarrow>
         spaceship s = None \<and> Spaceship \<notin> set (scene s)
       \<and> (\<exists>ship. spaceship (step s (Loaded g)) = Some ship
            \<and> transform ship = (transform g)\<lparr>scale := vec_set 2 2 2, position := vec_set 0 0 0\<rparr>
            \<and> strip_materials ship = strip_materials (Node (transform ship) (mesh g) (children g))
            \<and> mesh_materials ship =
                map ShaderMaterial
                  [length (materials s)..<length (materials s) + length (mesh_materials g)]
            \<and> distinct (mesh_materials ship)
            \<and> ShaderMaterial spaceshipShaderMaterial \<notin> set (mesh_materials ship))
       \<and> materials (step s (Loaded g)) =
            materials s @ replicate (length (mesh_materials g)) (fresh_clone (materials s))
       \<and> scene (step s (Loaded g)) = scene s @ [Spaceship]
       \<and> console (step s (Loaded g)) =
            console s @ [Log ''Spaceship loaded and added to the scene'']
       \<and> \<not> load_in_flight (step s (Loaded g))
       \<and> console (step s (LoadFailed err)) = console s @ [Error ''Error loading spaceship:'' err]
       \<and> \<not> load_in_flight (step s (LoadFailed err))
       \<and> (loader_contract (es @ LoadFailed err # es') \<longrightarrow>
            spaceship (run (step s (LoadFailed err)) es') = None
          \<and> Spaceship \<notin> set (scene (run (step s (LoadFailed err)) es'))
          \<and> \<not> load_in_flight (run (step s (LoadFailed err)) es')
          \<and> loader_requests (run (step s (LoadFailed err)) es') = [''models/spaceship.gltf'']
          \<and> position (camera (run (step s (LoadFailed err)) es')) = position (camera s)
          \<and> lookAt (camera (run (step s (LoadFailed err)) es')) = lookAt (camera s)
          \<and> camera (animate (run (step s (LoadFailed err)) es')) =
               camera (run (step s (LoadFailed err)) es')
          \<and> materials (click (run (step s (LoadFailed err)) es')) =
               materials (run (step s (LoadFailed err)) es')))"
proof -
  have req: "loader_requests s = [''models/spaceship.gltf'']"
    by (simp add: assms loader_requests_run)
  have lc: "loader_completed s = length (filter is_completion es)"
    by (simp add: assms loader_completed_run)
  have fl_iff: "load_in_flight s = (filter is_completion es = [])"
    by (simp add: load_in_flight_def req lc)
  have ne: "materials s \<noteq> []" by (simp add: assms materials_run_nonempty)
  have ok: "store_ok s" using assms store_ok_run by simp
  have "materials (click s) ! 0 = materials s ! 0"
  proof (cases "spaceship s")
    case None
    then show ?thesis by (simp add: click_absent)
  next
    case (Some ship)
    then show ?thesis using click_loaded(2)[OF ok] by simp
  qed
  then have ind: "tl (materials (animate s)) = tl (materials s)"
    "materials (click s) ! spaceshipShaderMaterial = materials s ! spaceshipShaderMaterial"
    by (simp_all add: tl_materials_animate spaceshipShaderMaterial_def)
  have rest: ?thesis if fl: "load_in_flight s"
  proof -
    have nl: "not_loaded s" using fl not_loaded_run assms by simp
    have c0: "loader_completed s = 0" using fl req by (simp add: load_in_flight_def)
    define s1 where "s1 = s\<lparr>loader_completed := Suc (loader_completed s)\<rparr>"
    have ne1: "materials s1 \<noteq> []" "materials s1 = materials s" using ne by (simp_all add: s1_def)
    have st: "step s (Loaded g) = on_load g s1" "step s (LoadFailed err) = on_error err s1"
      by (simp_all add: s1_def)
    obtain ship where ship: "spaceship (on_load g s1) = Some ship"
      "transform ship = (transform g)\<lparr>scale := vec_set 2 2 2, position := vec_set 0 0 0\<rparr>"
      "strip_materials ship = strip_materials (Node (transform ship) (mesh g) (children g))"
      "mesh_materials ship =
          map ShaderMaterial [length (materials s)..<length (materials s) + length (mesh_materials g)]"
      using on_load_result(1)[OF ne1(1), of g] unfolding ne1(2) by blast
    have d: "distinct (mesh_materials ship)"
      unfolding ship(4) by (simp add: distinct_map inj_on_def)
    have z: "ShaderMaterial spaceshipShaderMaterial \<notin> set (mesh_materials ship)"
      unfolding ship(4) using ne by (auto simp: spaceshipShaderMaterial_def)
    have m: "materials (on_load g s1) =
        materials s @ replicate (length (mesh_materials g)) (fresh_clone (materials s))"
      using on_load_result(2)[OF ne1(1), of g] unfolding ne1(2) .
    have fin: "\<not> load_in_flight (on_load g s1)"
      using req by (simp add: load_in_flight_def loader_on_load s1_def)
    define sf where "sf = on_error err s1"
    have f0: "\<not> load_in_flight sf" "not_loaded sf" "loader_completed sf = 1"
      using req nl c0
      by (simp_all add: sf_def on_error_def s1_def load_in_flight_def not_loaded_def)
    have cam: "position (camera sf) = position (camera s)" "lookAt (camera sf) = lookAt (camera s)"
      by (simp_all add: sf_def on_error_def s1_def)
    have lr: "loader_requests (run sf es') = [''models/spaceship.gltf'']"
      using req by (induction es' rule: rev_induct)
        (simp_all add: run_Nil run_snoc loader_requests_step sf_def on_error_def s1_def)
    have after: "spaceship (run sf es') = None
        \<and> Spaceship \<notin> set (scene (run sf es'))
        \<and> \<not> load_in_flight (run sf es')
        \<and> position (camera (run sf es')) = position (camera s)
        \<and> lookAt (camera (run sf es')) = lookAt (camera s)
        \<and> camera (animate (run sf es')) = camera (run sf es')
        \<and> materials (click (run sf es')) = materials (run sf es')"
      if con: "loader_contract (es @ LoadFailed err # es')"
    proof -
      have quiet: "filter is_completion es' = []"
        using con by (simp add: loader_contract_def)
      note F = failed_run[OF quiet f0(2)]
      have n: "spaceship (run sf es') = None" using F by (simp add: not_loaded_def)
      have inert: "camera (animate (run sf es')) = camera (run sf es')"
        "materials (click (run sf es')) = materials (run sf es')"
        using n by (simp_all add: camera_animate click_def Let_def)
      have "\<not> load_in_flight (run sf es')"
        using F f0(3) lr by (simp add: load_in_flight_def)
      then show ?thesis using F n inert cam by (simp add: not_loaded_def)
    qed
    show ?thesis
      unfolding st sf_def[symmetric]
      using req fl_iff nl ship d z m fin ind f0(1) cam lr after
      by (simp add: not_loaded_def loader_on_load sf_def on_error_def s1_def)
  qed
  show ?thesis using req fl_iff ind rest by blast
qed

theorem spaceship_load_once_witness:
  "load_in_flight (run (script 800 600 zero_draws) [Click])
   \<and> loader_contract ([Click] @ LoadFailed ''not found'' # [Click, KeyDown ''ArrowUp'', AnimationFrame])
   \<and> loader_requests (run (script 800 600 zero_draws) [Click]) = [''models/spaceship.gltf'']
   \<and> mesh_materials (the (spaceship (step (run (script 800 600 zero_draws) [Click])
        (Loaded two_mesh_model)))) = [ShaderMaterial 1, ShaderMaterial 2]
   \<and> length (materials (step (run (script 800 600 zero_draws) [Click]) (Loaded two_mesh_model))) = 3
   \<and> spaceship (run (step (run (script 800 600 zero_draws) [Click]) (LoadFailed ''not found''))
        [Click, KeyDown ''ArrowUp'', AnimationFrame]) = None
   \<and> position (camera (run (step (run (script 800 600 zero_draws) [Click]) (LoadFailed ''not found''))
        [Click, KeyDown ''ArrowUp'', AnimationFrame])) = vec_set 0 0 10"
proof -
  define s where "s = run (script 800 600 zero_draws) [Click]"
  have s: "s = click (script 800 600 zero_draws)" by (simp add: s_def run_def)
  have fl: "load_in_flight s"
    using load_in_flight_script[of 800 600 zero_draws]
    by (simp add: s load_in_flight_def loader_completed_click loader_requests_click)
  have con: "loader_contract
      ([Click] @ LoadFailed ''not found'' # [Click, KeyDown ''ArrowUp'', AnimationFrame])"
    by (simp add: loader_contract_def)
  have len: "length (materials s) = 1"
    by (simp add: s click_absent script_not_loaded materials_script)
  have cam: "position (camera s) = vec_set 0 0 10"
    by (simp add: s camera_click script_def camera_animate top_level_def)
  have k: "length (mesh_materials two_mesh_model) = 2" by (simp add: two_mesh_model_def)
  note T = spaceship_load_once[OF s_def, of two_mesh_model "''not found''"
      "[Click, KeyDown ''ArrowUp'', AnimationFrame]"]
  have u: "[Suc 0..<3] = [1, 2]" by (simp add: upt_rec)
  obtain ship where ship: "spaceship (step s (Loaded two_mesh_model)) = Some ship"
    "mesh_materials ship = map ShaderMaterial [length (materials s)..<length (materials s) + length (mesh_materials two_mesh_model)]"
    using T fl by blast
  have 1: "mesh_materials (the (spaceship (step s (Loaded two_mesh_model)))) = [ShaderMaterial 1, ShaderMaterial 2]"
    using ship by (simp add: len k u)
  have 2: "length (materials (step s (Loaded two_mesh_model))) = 3"
    using T fl by (simp add: len k)
  have 3: "spaceship (run (step s (LoadFailed ''not found''))
        [Click, KeyDown ''ArrowUp'', AnimationFrame]) = None"
    "position (camera (run (step s (LoadFailed ''not found''))
        [Click, KeyDown ''ArrowUp'', AnimationFrame])) = position (camera s)"
    using T fl con by blast+
  show ?thesis
    unfolding s_def[symmetric] using T fl con 1 2 3 cam by simp
qed

end
